theory Spec2Isabelle
  imports Main "HOL-Library.Word" "HOL-Library.Sublist" "HOL-Library.AList"
begin

section \<open>Bytes and strings\<close>

text \<open>
  A Python \<open>bytes\<close> object is a list of 8-bit words. A Python \<open>str\<close> is a list of
  code points (natural numbers), so that \<open>len\<close> counts what Python counts. \<open>str_of\<close>
  turns an ASCII literal into such a string and \<open>bytes_of\<close> into bytes.
\<close>

type_synonym byte = "8 word"
type_synonym bytes = "byte list"
type_synonym pystr = "nat list"

definition str_of :: "string \<Rightarrow> pystr" where
  "str_of s = map of_char s"

definition bytes_of :: "string \<Rightarrow> bytes" where
  "bytes_of s = map of_char s"

text \<open>Python's slice \<open>data[a:b]\<close> for \<open>0 \<le> a\<close> and \<open>0 \<le> b\<close>.\<close>

definition py_slice :: "'a list \<Rightarrow> nat \<Rightarrow> nat \<Rightarrow> 'a list" where
  "py_slice data a b = take (b - a) (drop a data)"

section \<open>The scanner: \<open>find_json_bytes\<close>\<close>

text \<open>
  \<open>data.find(sub, start)\<close> for a one-byte \<open>sub\<close>: the lowest index at or after
  \<open>start\<close> that holds the byte, \<open>None\<close> for Python's \<open>-1\<close>.
\<close>

fun find_byte :: "byte \<Rightarrow> bytes \<Rightarrow> nat \<Rightarrow> nat option" where
  "find_byte c [] k = None"
| "find_byte c (x # xs) k = (if x = c then Some k else find_byte c xs (Suc k))"

definition find1 :: "bytes \<Rightarrow> byte \<Rightarrow> nat \<Rightarrow> nat option" where
  "find1 data c start = find_byte c (drop start data) start"

text \<open>
  The three local variables of one scan attempt. \<open>depth\<close> is a Python integer, so the
  model does not build its sign into the type.
\<close>

record scan_state =
  depth :: int
  in_str :: bool
  escape :: bool

definition scan_init :: scan_state where
  "scan_init = \<lparr>depth = 0, in_str = False, escape = False\<rparr>"

text \<open>
  The body of the inner \<open>while\<close> loop for the byte \<open>ch\<close>: \<open>None\<close> is the
  \<open>return\<close> of the slice, \<open>Some s'\<close> the state the loop goes on with.
\<close>

definition scan_step :: "scan_state \<Rightarrow> byte \<Rightarrow> scan_state option" where
  "scan_step s ch =
     (if in_str s then
        (if escape s then Some (s\<lparr>escape := False\<rparr>)
         else if ch = 0x5C then Some (s\<lparr>escape := True\<rparr>)
         else if ch = 0x22 then Some (s\<lparr>in_str := False\<rparr>)
         else Some s)
      else
        (if ch = 0x22 then Some (s\<lparr>in_str := True\<rparr>)
         else if ch = 0x7B then Some (s\<lparr>depth := depth s + 1\<rparr>)
         else if ch = 0x7D then
           (let s' = s\<lparr>depth := depth s - 1\<rparr>
            in if depth s' = 0 then None else Some s')
         else Some s))"

text \<open>
  The inner loop \<open>while i < limit\<close>: \<open>Some i\<close> is the index of the closing brace
  at which the function returns, \<open>None\<close> means the loop ran out.
\<close>

function walk :: "bytes \<Rightarrow> int \<Rightarrow> nat \<Rightarrow> scan_state \<Rightarrow> nat option" where
  "walk data limit i s =
     (if int i < limit then
        (case scan_step s (data ! i) of
           None \<Rightarrow> Some i
         | Some s' \<Rightarrow> walk data limit (i + 1) s')
      else None)"
  by pat_completeness auto
termination
  by (relation "measure (\<lambda>(data, limit, i, s). nat (limit - int i))") auto

declare walk.simps [simp del]

text \<open>The scan limit of one attempt: \<open>max_search_len\<close> is \<open>None\<close> or an integer.\<close>

definition scan_limit :: "bytes \<Rightarrow> int option \<Rightarrow> nat \<Rightarrow> int" where
  "scan_limit data max_search_len start =
     (case max_search_len of
        None \<Rightarrow> int (length data)
      | Some m \<Rightarrow> min (int (length data)) (int start + m))"

lemma find_byte_bounds:
  "find_byte c xs k = Some j \<Longrightarrow> k \<le> j \<and> j < k + length xs"
  by (induction xs arbitrary: k) (fastforce split: if_splits)+

lemma find1_bounds:
  "find1 data c start = Some j \<Longrightarrow> start \<le> j \<and> j < length data"
  using find_byte_bounds [of c "drop start data" start j]
  by (auto simp: find1_def)

text \<open>
  The outer loop \<open>while start != -1\<close>, on the current candidate (\<open>None\<close> for
  \<open>-1\<close>).
\<close>

function scan_from :: "bytes \<Rightarrow> int option \<Rightarrow> nat option \<Rightarrow> bytes option" where
  "scan_from data max_search_len None = None"
| "scan_from data max_search_len (Some start) =
     (case walk data (scan_limit data max_search_len start) start scan_init of
        Some i \<Rightarrow> Some (py_slice data start (i + 1))
      | None \<Rightarrow> scan_from data max_search_len (find1 data 0x7B (start + 1)))"
  by pat_completeness auto
termination
proof (relation "measure (\<lambda>(data, m, c). case c of None \<Rightarrow> 0 | Some k \<Rightarrow> Suc (length data - k))")
  show "wf (measure (\<lambda>(data, m, c). case c of None \<Rightarrow> 0 | Some k \<Rightarrow> Suc (length data - k)))"
    by simp
next
  fix data :: bytes and max_search_len :: "int option" and start :: nat
  show "((data, max_search_len, find1 data 0x7B (start + 1)), data, max_search_len, Some start)
        \<in> measure (\<lambda>(data, m, c). case c of None \<Rightarrow> 0 | Some k \<Rightarrow> Suc (length data - k))"
  proof (cases "find1 data 0x7B (start + 1)")
    case None
    then show ?thesis by simp
  next
    case (Some j)
    have "start < j" and "j < length data"
      using find1_bounds [OF Some] by simp_all
    then have "length data - j < length data - start" by arith
    with Some show ?thesis by simp
  qed
qed

definition find_json_bytes :: "bytes \<Rightarrow> int option \<Rightarrow> bytes option" where
  "find_json_bytes data max_search_len = scan_from data max_search_len (find1 data 0x7B 0)"


section \<open>JSON values and the environment\<close>

text \<open>
  What \<open>json.loads\<close> builds: \<open>None\<close>, \<open>bool\<close>, \<open>int\<close>, \<open>float\<close> (its 64 bits),
  \<open>str\<close>, \<open>list\<close> and \<open>dict\<close>. A \<open>dict\<close> keeps its insertion order, so it is an
  association list; \<open>AList.update\<close> is \<open>d[k] = v\<close> (a new key goes to the end, a
  known key keeps its place).
\<close>

datatype json =
    JNull
  | JBool bool
  | JInt int
  | JFloat "64 word"
  | JStr pystr
  | JArr "json list"
  | JObj "(pystr \<times> json) list"

type_synonym pydict = "(pystr \<times> json) list"

text \<open>An opened \<open>zipfile.ZipFile\<close>: \<open>namelist()\<close> and \<open>read(name)\<close> (\<open>None\<close>: it raises).\<close>

record zipfile =
  namelist :: "pystr list"
  zread :: "pystr \<Rightarrow> bytes option"

text \<open>
  The standard library and the operating system, as the script uses them. They are not
  code of this repository, so the model takes them as parameters; \<open>None\<close> stands for a
  raised exception.
  \<^item> \<open>b64decode b\<close>: \<open>base64.b64decode(b, validate=False)\<close>;
  \<^item> \<open>gzip_decompress\<close>, \<open>zlib_decompress\<close>: \<open>gzip.decompress\<close>, \<open>zlib.decompress\<close>;
  \<^item> \<open>zip_open b\<close>: \<open>zipfile.ZipFile(io.BytesIO(b))\<close>;
  \<^item> \<open>utf8_decode\<close>: \<open>bytes.decode('utf-8')\<close>, strict; \<open>utf8_decode_replace\<close>: the same
    with \<open>errors='replace'\<close>, which never raises;
  \<^item> \<open>utf8_encode\<close>: \<open>str.encode('utf-8')\<close>, also what a text file opened with
    \<open>encoding='utf-8'\<close> does to each string written to it;
  \<^item> \<open>json_loads\<close>: \<open>json.loads\<close> on a text that starts with an opening brace, so that a
    result is a \<open>dict\<close>;
  \<^item> \<open>json_iterencode d\<close>: the chunks that \<open>json.dump(d, f, indent=2, ensure_ascii=False)\<close>
    writes to \<open>f\<close>, one \<open>f.write\<close> each;
  \<^item> \<open>can_open p\<close>: \<open>open(p, 'w')\<close> and \<open>open(p, 'wb')\<close> succeed;
  \<^item> \<open>can_makedirs p\<close>: \<open>os.makedirs(p, exist_ok=True)\<close> succeeds;
  \<^item> \<open>can_print m\<close>: \<open>print\<close> of the message \<open>m\<close> succeeds, that is, \<open>sys.stdout\<close> can
    encode it.

  What the model assumes of them: each is a function of its arguments, so whether a
  path can be opened does not change during a run or between runs; a path names a file
  as a string (two different strings are two files); a text file is written as on
  POSIX, without newline translation; reading the input file raises nothing but
  \<open>FileNotFoundError\<close>.

  Of the console output the model has the two prints of the loop body that stand
  outside every \<open>try\<close> block, where an exception of \<open>print\<close> ends the run: the one of the
  handler of line 251, \<open>DecodeFailed key\<close> for
  \<open>f"[!] base64 decode failed for {key}: {e}"\<close> with the text of the exception caught,
  and the one of line 259, \<open>WroteText key out_path n\<close> for
  \<open>f"[+] Wrote text field '{key}' -> {out_path} ({n} chars)"\<close>. The other prints are
  not modelled.
\<close>

datatype message = DecodeFailed pystr | WroteText pystr pystr nat

record env =
  b64decode :: "bytes \<Rightarrow> bytes option"
  gzip_decompress :: "bytes \<Rightarrow> bytes option"
  zlib_decompress :: "bytes \<Rightarrow> bytes option"
  zip_open :: "bytes \<Rightarrow> zipfile option"
  utf8_decode :: "bytes \<Rightarrow> pystr option"
  utf8_decode_replace :: "bytes \<Rightarrow> pystr"
  utf8_encode :: "pystr \<Rightarrow> bytes option"
  json_loads :: "pystr \<Rightarrow> pydict option"
  json_iterencode :: "pydict \<Rightarrow> pystr list"
  can_open :: "pystr \<Rightarrow> bool"
  can_makedirs :: "pystr \<Rightarrow> bool"
  can_print :: "message \<Rightarrow> bool"

text \<open>The file system: the directories that exist and the bytes of every file, by path.\<close>

record fs =
  dirs :: "pystr set"
  files :: "pystr \<rightharpoonup> bytes"

text \<open>\<open>os.path.join(a, b)\<close> of \<open>posixpath\<close>, for two components.\<close>

definition path_join :: "pystr \<Rightarrow> pystr \<Rightarrow> pystr" where
  "path_join a b =
     (if b \<noteq> [] \<and> hd b = 0x2F then b
      else if a = [] \<or> last a = 0x2F then a @ b
      else a @ [0x2F] @ b)"

text \<open>
  \<open>with open(path, 'wb') as f: f.write(b)\<close>. The flag tells whether it went through;
  when \<open>open\<close> raises, nothing is written.
\<close>

definition write_binary :: "env \<Rightarrow> pystr \<Rightarrow> bytes \<Rightarrow> fs \<Rightarrow> bool \<times> fs" where
  "write_binary e path b s =
     (if can_open e path then (True, s\<lparr>files := (files s)(path \<mapsto> b)\<rparr>)
      else (False, s))"

text \<open>
  \<open>with open(path, 'w', encoding='utf-8') as f: f.write(t)\<close>. \<open>open\<close> truncates the
  file; a string that cannot be encoded raises in \<open>write\<close> and leaves it empty.
\<close>

definition write_text :: "env \<Rightarrow> pystr \<Rightarrow> pystr \<Rightarrow> fs \<Rightarrow> bool \<times> fs" where
  "write_text e path t s =
     (if \<not> can_open e path then (False, s)
      else case utf8_encode e t of
             None \<Rightarrow> (False, s\<lparr>files := (files s)(path \<mapsto> [])\<rparr>)
           | Some b \<Rightarrow> (True, s\<lparr>files := (files s)(path \<mapsto> b)\<rparr>))"

section \<open>The writer: \<open>save_metadata_files\<close>\<close>

text \<open>
  \<open>b64_re = re.compile(r'^[A-Za-z0-9+/=\n\r]+$')\<close> and \<open>b64_re.match(val)\<close>: the class
  matches greedily at least once from the start of the string, and \<open>$\<close> holds at the end
  of the string and just before a newline that ends it.
\<close>

definition b64_class :: "nat \<Rightarrow> bool" where
  "b64_class c \<longleftrightarrow>
     (0x41 \<le> c \<and> c \<le> 0x5A) \<or> (0x61 \<le> c \<and> c \<le> 0x7A) \<or> (0x30 \<le> c \<and> c \<le> 0x39)
     \<or> c = 0x2B \<or> c = 0x2F \<or> c = 0x3D \<or> c = 0x0A \<or> c = 0x0D"

definition dollar_at :: "pystr \<Rightarrow> nat \<Rightarrow> bool" where
  "dollar_at v n \<longleftrightarrow> n = length v \<or> (n + 1 = length v \<and> v ! n = 0x0A)"

definition b64_re_match :: "pystr \<Rightarrow> bool" where
  "b64_re_match v \<longleftrightarrow>
     list_ex (\<lambda>n. list_all b64_class (take n v) \<and> dollar_at v n) [1..<Suc (length v)]"

text \<open>The test of line 160, on which the base64 branch is entered.\<close>

definition binary_candidate :: "json \<Rightarrow> bool" where
  "binary_candidate val =
     (case val of JStr v \<Rightarrow> 100 < length v \<and> b64_re_match v | _ \<Rightarrow> False)"

text \<open>The test of line 254, for a string value.\<close>

definition long_text :: "pystr \<Rightarrow> pystr \<Rightarrow> bool" where
  "long_text key v \<longleftrightarrow> suffix (str_of ''_xml'') key \<or> 0x0A \<in> set v \<or> 200 < length v"

definition xml_key :: "pystr \<Rightarrow> bool" where
  "xml_key key \<longleftrightarrow> key = str_of ''airframe_xml'' \<or> key = str_of ''parameter_xml''"

definition text_ext :: "pystr \<Rightarrow> pystr" where
  "text_ext key =
     (if suffix (str_of ''_xml'') key \<or> xml_key key then str_of ''xml'' else str_of ''txt'')"

text \<open>
  The three attempts of the local function \<open>try_decompress\<close>. Each is a \<open>try\<close> block of
  its own: a signature that does not match and an exception both give \<open>None\<close>, and the
  function goes on to the next block.
\<close>

definition gzip_attempt :: "env \<Rightarrow> bytes \<Rightarrow> bytes option" where
  "gzip_attempt e b = (if prefix [0x1F, 0x8B] b then gzip_decompress e b else None)"

definition zlib_attempt :: "env \<Rightarrow> bytes \<Rightarrow> bytes option" where
  "zlib_attempt e b = (if 2 \<le> length b \<and> b ! 0 = 0x78 then zlib_decompress e b else None)"

definition zip_attempt :: "env \<Rightarrow> bytes \<Rightarrow> bytes option" where
  "zip_attempt e b =
     (if prefix [0x50, 0x4B, 0x03, 0x04] b then
        (case zip_open e b of
           None \<Rightarrow> None
         | Some z \<Rightarrow> (case namelist z of [] \<Rightarrow> None | n # ns \<Rightarrow> zread z n))
      else None)"

definition try_decompress :: "env \<Rightarrow> bytes \<Rightarrow> bytes option" where
  "try_decompress e b =
     (case gzip_attempt e b of
        Some r \<Rightarrow> Some r
      | None \<Rightarrow>
          (case zlib_attempt e b of
             Some r \<Rightarrow> Some r
           | None \<Rightarrow> zip_attempt e b))"

text \<open>
  Lines 210-225 and 228-241 are the same code but for the message printed: decode the
  payload as UTF-8 and write \<open><key>.xml\<close>; on any exception in that, write the payload to
  \<open><key>.bin\<close>. The result is \<open>True\<close> at a \<open>continue\<close> and \<open>False\<close> when the second
  write raises as well.
\<close>

definition save_xml_payload :: "env \<Rightarrow> pystr \<Rightarrow> pystr \<Rightarrow> bytes \<Rightarrow> fs \<Rightarrow> bool \<times> fs" where
  "save_xml_payload e output_dir key payload s =
     (case utf8_decode e payload of
        None \<Rightarrow> write_binary e (path_join output_dir (key @ str_of ''.bin'')) payload s
      | Some t \<Rightarrow>
          (case write_text e (path_join output_dir (key @ str_of ''.xml'')) t s of
             (True, s') \<Rightarrow> (True, s')
           | (False, s') \<Rightarrow>
               write_binary e (path_join output_dir (key @ str_of ''.bin'')) payload s'))"

text \<open>
  The \<open>try\<close> block of lines 162-248 for a string value. \<open>True\<close>: the field is done
  (\<open>continue\<close>). \<open>False\<close>: an exception reached the handler of line 249, and the loop body
  goes on below it.
\<close>

definition decode_field :: "env \<Rightarrow> pystr \<Rightarrow> pystr \<Rightarrow> pystr \<Rightarrow> fs \<Rightarrow> bool \<times> fs" where
  "decode_field e output_dir key v s =
     (case utf8_encode e v of
        None \<Rightarrow> (False, s)
      | Some vb \<Rightarrow>
          (case b64decode e vb of
             None \<Rightarrow> (False, s)
           | Some decoded \<Rightarrow>
               if key = str_of ''image'' then
                 write_binary e (path_join output_dir (str_of ''firmware.bin'')) decoded s
               else if xml_key key then
                 (case try_decompress e decoded of
                    Some decompressed \<Rightarrow> save_xml_payload e output_dir key decompressed s
                  | None \<Rightarrow> save_xml_payload e output_dir key decoded s)
               else
                 write_binary e (path_join output_dir (key @ str_of ''.bin'')) decoded s))"

text \<open>
  An exception outside the \<open>try\<close> block ends the run: \<open>Aborted\<close> keeps the file system
  as it is then. \<open>Running\<close> carries the file system and the local \<open>remaining\<close>.
\<close>

datatype run = Aborted fs | Running fs pydict

text \<open>
  Lines 253-263, where the loop body arrives when the base64 branch was not taken or
  its handler caught an exception: a string that is long text goes to a text file,
  which line 259 reports, any other value into \<open>remaining\<close>.
\<close>

definition store_plain :: "env \<Rightarrow> pystr \<Rightarrow> pystr \<Rightarrow> json \<Rightarrow> fs \<Rightarrow> pydict \<Rightarrow> run" where
  "store_plain e output_dir key val s remaining =
     (case val of
        JStr v \<Rightarrow>
          if long_text key v then
            (case write_text e (path_join output_dir (key @ str_of ''.'' @ text_ext key)) v s of
               (True, s') \<Rightarrow>
                 if can_print e
                      (WroteText key (path_join output_dir (key @ str_of ''.'' @ text_ext key))
                         (length v))
                 then Running s' remaining
                 else Aborted s'
             | (False, s') \<Rightarrow> Aborted s')
          else Running s (AList.update key val remaining)
      | _ \<Rightarrow> Running s (AList.update key val remaining))"

text \<open>
  The body of the loop of line 155 for one item of \<open>metadata.items()\<close>. When the
  \<open>try\<close> block raises, the handler of lines 249-251 prints its message, outside any
  \<open>try\<close>, and the body goes on at line 253.
\<close>

definition process_field :: "env \<Rightarrow> pystr \<Rightarrow> pystr \<Rightarrow> json \<Rightarrow> fs \<Rightarrow> pydict \<Rightarrow> run" where
  "process_field e output_dir key val s remaining =
     (if val = JNull then Running s remaining
      else
        (case val of
           JStr v \<Rightarrow>
             if binary_candidate val then
               (case decode_field e output_dir key v s of
                  (True, s') \<Rightarrow> Running s' remaining
                | (False, s') \<Rightarrow>
                    if can_print e (DecodeFailed key)
                    then store_plain e output_dir key val s' remaining
                    else Aborted s')
             else store_plain e output_dir key val s remaining
         | _ \<Rightarrow> store_plain e output_dir key val s remaining))"

fun process_fields :: "env \<Rightarrow> pystr \<Rightarrow> pydict \<Rightarrow> fs \<Rightarrow> pydict \<Rightarrow> run" where
  "process_fields e output_dir [] s remaining = Running s remaining"
| "process_fields e output_dir ((key, val) # rest) s remaining =
     (case process_field e output_dir key val s remaining of
        Aborted s' \<Rightarrow> Aborted s'
      | Running s' remaining' \<Rightarrow> process_fields e output_dir rest s' remaining')"

text \<open>
  \<open>json.dump\<close> writes chunk after chunk to the open file; a chunk that cannot be encoded
  raises, and what was written before it stays in the file.
\<close>

fun encode_chunks :: "env \<Rightarrow> pystr list \<Rightarrow> bytes \<Rightarrow> bool \<times> bytes" where
  "encode_chunks e [] acc = (True, acc)"
| "encode_chunks e (c # cs) acc =
     (case utf8_encode e c of
        None \<Rightarrow> (False, acc)
      | Some b \<Rightarrow> encode_chunks e cs (acc @ b))"

definition dump_json :: "env \<Rightarrow> pystr \<Rightarrow> pydict \<Rightarrow> fs \<Rightarrow> bool \<times> fs" where
  "dump_json e path d s =
     (if \<not> can_open e path then (False, s)
      else case encode_chunks e (json_iterencode e d) [] of
             (ok, b) \<Rightarrow> (ok, s\<lparr>files := (files s)(path \<mapsto> b)\<rparr>))"

text \<open>\<open>True\<close>: the function returned. \<open>False\<close>: an exception left it.\<close>

definition save_metadata_files :: "env \<Rightarrow> pydict \<Rightarrow> pystr \<Rightarrow> fs \<Rightarrow> bool \<times> fs" where
  "save_metadata_files e metadata output_dir s =
     (if \<not> can_makedirs e output_dir then (False, s)
      else
        (case process_fields e output_dir metadata (s\<lparr>dirs := insert output_dir (dirs s)\<rparr>) [] of
           Aborted s' \<Rightarrow> (False, s')
         | Running s' remaining \<Rightarrow>
             dump_json e (path_join output_dir (str_of ''metadata.json'')) remaining s'))"

section \<open>The entry point: \<open>quick_extract_tags\<close> and the script\<close>

text \<open>\<open>data.find(b"\n\n")\<close>, from index \<open>k\<close> of the whole buffer on.\<close>

fun find_nn :: "bytes \<Rightarrow> nat \<Rightarrow> nat option" where
  "find_nn (a # b # rest) k =
     (if a = 0x0A \<and> b = 0x0A then Some k else find_nn (b # rest) (Suc k))"
| "find_nn [a] k = None"
| "find_nn [] k = None"

text \<open>
  Lines 72-86: the balanced search first; when it finds nothing, the cut at the first
  NUL byte or else at the first double newline, and everything from the first opening
  brace of that cut.
\<close>

definition legacy_candidate :: "bytes \<Rightarrow> bytes option" where
  "legacy_candidate data =
     (case find1 data 0x00 0 of
        Some null_pos \<Rightarrow> Some (take null_pos data)
      | None \<Rightarrow>
          (case find_nn data 0 of
             Some dn_pos \<Rightarrow> Some (take dn_pos data)
           | None \<Rightarrow> None))"

definition locate_json :: "bytes \<Rightarrow> bytes option" where
  "locate_json data =
     (case find_json_bytes data None of
        Some json_bytes \<Rightarrow> Some json_bytes
      | None \<Rightarrow>
          (case legacy_candidate data of
             None \<Rightarrow> None
           | Some candidate \<Rightarrow>
               if candidate \<noteq> [] then
                 (case find1 candidate 0x7B 0 of
                    Some start \<Rightarrow> Some (drop start candidate)
                  | None \<Rightarrow> None)
               else None))"

text \<open>
  Lines 93-104: strict UTF-8 first; only a \<open>UnicodeDecodeError\<close> leads to the lossy
  decoding, any other exception of \<open>json.loads\<close> ends the function with \<open>None\<close>.
\<close>

definition parse_json :: "env \<Rightarrow> bytes \<Rightarrow> pydict option" where
  "parse_json e json_bytes =
     (case utf8_decode e json_bytes of
        Some t \<Rightarrow> json_loads e t
      | None \<Rightarrow> json_loads e (utf8_decode_replace e json_bytes))"

text \<open>\<open>len(x)\<close> raises \<open>TypeError\<close> unless \<open>x\<close> is a string, a list or a dict.\<close>

fun has_len :: "json \<Rightarrow> bool" where
  "has_len (JStr v) = True"
| "has_len (JArr xs) = True"
| "has_len (JObj d) = True"
| "has_len v = False"

datatype 'a pyresult = Returned 'a | Raised

text \<open>
  The file is read from the file system; a path that is not there is the
  \<open>FileNotFoundError\<close> the function catches. Line 135 takes \<open>len\<close> of the
  \<open>airframe_xml\<close> value outside any \<open>try\<close>.
\<close>

definition quick_extract_tags :: "env \<Rightarrow> pystr \<Rightarrow> fs \<Rightarrow> pydict option pyresult" where
  "quick_extract_tags e px4_file s =
     (case files s px4_file of
        None \<Rightarrow> Returned None
      | Some data \<Rightarrow>
          (case locate_json data of
             None \<Rightarrow> Returned None
           | Some json_bytes \<Rightarrow>
               if json_bytes = [] then Returned None
               else
                 (case parse_json e json_bytes of
                    None \<Rightarrow> Returned None
                  | Some metadata \<Rightarrow>
                      (case map_of metadata (str_of ''airframe_xml'') of
                         None \<Rightarrow> Returned (Some metadata)
                       | Some v \<Rightarrow> if has_len v then Returned (Some metadata) else Raised))))"

text \<open>
  The \<open>__main__\<close> block on \<open>sys.argv\<close>: \<open>Exit1\<close> is \<open>sys.exit(1)\<close> after the usage
  line, \<open>Traceback\<close> an exception nobody caught, \<open>Exit0\<close> the normal end.
\<close>

datatype exit_status = Exit0 | Exit1 | Traceback

definition script_main :: "env \<Rightarrow> pystr list \<Rightarrow> fs \<Rightarrow> exit_status \<times> fs" where
  "script_main e argv s =
     (if length argv < 2 then (Exit1, s)
      else
        (case quick_extract_tags e (argv ! 1) s of
           Raised \<Rightarrow> (Traceback, s)
         | Returned None \<Rightarrow> (Exit0, s)
         | Returned (Some metadata) \<Rightarrow>
             if metadata \<noteq> [] then
               (case save_metadata_files e metadata (str_of ''extracted'') s of
                  (True, s') \<Rightarrow> (Exit0, s')
                | (False, s') \<Rightarrow> (Traceback, s'))
             else (Exit0, s)))"

section \<open>An environment for the examples\<close>

text \<open>
  The examples below run the model in one concrete environment. Base64 and UTF-8 follow
  CPython: \<open>py_b64decode\<close> is the loop of \<open>binascii.a2b_base64\<close> in its non-strict
  mode (characters outside the alphabet are skipped, a pad that completes a quad ends
  the input, a quad left open at the end raises), \<open>utf8_dec\<close> is the UTF-8 decoder with
  its error ranges (\<open>lossy\<close>: every range becomes U+FFFD instead of raising), and
  \<open>py_utf8_encode\<close> raises on a surrogate.
\<close>

definition b64_value :: "byte \<Rightarrow> byte option" where
  "b64_value c =
     (if 0x41 \<le> c \<and> c \<le> 0x5A then Some (c - 0x41)
      else if 0x61 \<le> c \<and> c \<le> 0x7A then Some (c - 0x61 + 26)
      else if 0x30 \<le> c \<and> c \<le> 0x39 then Some (c - 0x30 + 52)
      else if c = 0x2B then Some 62
      else if c = 0x2F then Some 63
      else None)"

fun a2b_base64 :: "bytes \<Rightarrow> nat \<Rightarrow> byte \<Rightarrow> nat \<Rightarrow> bytes \<Rightarrow> bytes option" where
  "a2b_base64 [] quad_pos leftchar pads acc = (if quad_pos \<noteq> 0 then None else Some acc)"
| "a2b_base64 (c # cs) quad_pos leftchar pads acc =
     (if c = 0x3D then
        (if 2 \<le> quad_pos \<and> 4 \<le> quad_pos + (pads + 1) then Some acc
         else a2b_base64 cs quad_pos leftchar (if 2 \<le> quad_pos then pads + 1 else pads) acc)
      else
        (case b64_value c of
           None \<Rightarrow> a2b_base64 cs quad_pos leftchar pads acc
         | Some v \<Rightarrow>
             if quad_pos = 0 then a2b_base64 cs 1 v 0 acc
             else if quad_pos = 1 then
               a2b_base64 cs 2 (and v 0x0F) 0 (acc @ [or (push_bit 2 leftchar) (drop_bit 4 v)])
             else if quad_pos = 2 then
               a2b_base64 cs 3 (and v 0x03) 0 (acc @ [or (push_bit 4 leftchar) (drop_bit 2 v)])
             else a2b_base64 cs 0 0 0 (acc @ [or (push_bit 6 leftchar) v])))"

definition py_b64decode :: "bytes \<Rightarrow> bytes option" where
  "py_b64decode b = a2b_base64 b 0 0 0 []"

definition utf8_units :: "nat \<Rightarrow> bytes option" where
  "utf8_units c =
     (if c < 0x80 then Some [of_nat c]
      else if c < 0x800 then Some [of_nat (0xC0 + c div 64), of_nat (0x80 + c mod 64)]
      else if 0xD800 \<le> c \<and> c \<le> 0xDFFF then None
      else if c < 0x10000 then
        Some [of_nat (0xE0 + c div 4096), of_nat (0x80 + c div 64 mod 64), of_nat (0x80 + c mod 64)]
      else if c < 0x110000 then
        Some [of_nat (0xF0 + c div 262144), of_nat (0x80 + c div 4096 mod 64),
              of_nat (0x80 + c div 64 mod 64), of_nat (0x80 + c mod 64)]
      else None)"

fun py_utf8_encode :: "pystr \<Rightarrow> bytes option" where
  "py_utf8_encode [] = Some []"
| "py_utf8_encode (c # cs) =
     (case utf8_units c of
        None \<Rightarrow> None
      | Some b \<Rightarrow> map_option ((@) b) (py_utf8_encode cs))"

definition is_cont :: "byte \<Rightarrow> bool" where
  "is_cont c \<longleftrightarrow> 0x80 \<le> c \<and> c < 0xC0"

text \<open>
  One step of the decoder at the byte \<open>ch\<close> followed by \<open>s\<close>: a code point and the bytes
  after it; an error range, with the bytes after the range; or the end of the input in
  the middle of a sequence.
\<close>

datatype utf8_step = Scalar nat bytes | Bad bytes | Truncated

definition utf8_step2 :: "byte \<Rightarrow> bytes \<Rightarrow> utf8_step" where
  "utf8_step2 ch s =
     (case s of
        [] \<Rightarrow> Truncated
      | ch2 # s2 \<Rightarrow>
          if \<not> is_cont ch2 then Bad s
          else Scalar ((unat ch - 0xC0) * 64 + (unat ch2 - 0x80)) s2)"

definition utf8_step3 :: "byte \<Rightarrow> bytes \<Rightarrow> utf8_step" where
  "utf8_step3 ch s =
     (case s of
        [] \<Rightarrow> Truncated
      | ch2 # s2 \<Rightarrow>
          if \<not> is_cont ch2 \<or> (ch = 0xE0 \<and> ch2 < 0xA0) \<or> (ch = 0xED \<and> 0xA0 \<le> ch2) then Bad s
          else
            (case s2 of
               [] \<Rightarrow> Truncated
             | ch3 # s3 \<Rightarrow>
                 if \<not> is_cont ch3 then Bad s2
                 else Scalar ((unat ch - 0xE0) * 4096 + (unat ch2 - 0x80) * 64 + (unat ch3 - 0x80)) s3))"

definition utf8_step4 :: "byte \<Rightarrow> bytes \<Rightarrow> utf8_step" where
  "utf8_step4 ch s =
     (case s of
        [] \<Rightarrow> Truncated
      | ch2 # s2 \<Rightarrow>
          if \<not> is_cont ch2 \<or> (ch = 0xF0 \<and> ch2 < 0x90) \<or> (ch = 0xF4 \<and> 0x90 \<le> ch2) then Bad s
          else
            (case s2 of
               [] \<Rightarrow> Truncated
             | ch3 # s3 \<Rightarrow>
                 if \<not> is_cont ch3 then Bad s2
                 else
                   (case s3 of
                      [] \<Rightarrow> Truncated
                    | ch4 # s4 \<Rightarrow>
                        if \<not> is_cont ch4 then Bad s3
                        else Scalar ((unat ch - 0xF0) * 262144 + (unat ch2 - 0x80) * 4096
                                   + (unat ch3 - 0x80) * 64 + (unat ch4 - 0x80)) s4)))"

definition utf8_step :: "byte \<Rightarrow> bytes \<Rightarrow> utf8_step" where
  "utf8_step ch s =
     (if ch < 0x80 then Scalar (unat ch) s
      else if ch < 0xC2 then Bad s
      else if ch < 0xE0 then utf8_step2 ch s
      else if ch < 0xF0 then utf8_step3 ch s
      else if ch < 0xF5 then utf8_step4 ch s
      else Bad s)"

lemma utf8_step_Scalar_length: "utf8_step ch s = Scalar c r \<Longrightarrow> length r \<le> length s"
  by (auto simp: utf8_step_def utf8_step2_def utf8_step3_def utf8_step4_def
      split: if_splits list.splits)

lemma utf8_step_Bad_length: "utf8_step ch s = Bad r \<Longrightarrow> length r \<le> length s"
  by (auto simp: utf8_step_def utf8_step2_def utf8_step3_def utf8_step4_def
      split: if_splits list.splits)

function utf8_dec :: "bool \<Rightarrow> bytes \<Rightarrow> pystr option" where
  "utf8_dec lossy [] = Some []"
| "utf8_dec lossy (ch # s) =
     (case utf8_step ch s of
        Scalar c r \<Rightarrow> map_option ((#) c) (utf8_dec lossy r)
      | Bad r \<Rightarrow> if lossy then map_option ((#) 0xFFFD) (utf8_dec lossy r) else None
      | Truncated \<Rightarrow> if lossy then Some [0xFFFD] else None)"
  by pat_completeness auto
termination
proof (relation "measure (\<lambda>(lossy, b). length b)")
  show "wf (measure (\<lambda>(lossy, b). length b))" by simp
next
  fix lossy ch s c r
  assume "utf8_step ch s = Scalar c r"
  then show "((lossy, r), lossy, ch # s) \<in> measure (\<lambda>(lossy, b). length b)"
    using utf8_step_Scalar_length [of ch s c r] by simp
next
  fix lossy ch s r
  assume "utf8_step ch s = Bad r"
  then show "((lossy, r), lossy, ch # s) \<in> measure (\<lambda>(lossy, b). length b)"
    using utf8_step_Bad_length [of ch s r] by simp
qed


text \<open>
  The compressed streams of the examples, as CPython's \<open>gzip.compress(b"HELLO", mtime=0)\<close>
  and \<open>zlib.compress(b"HELLO")\<close> give them, and a zip archive whose only entry
  \<open>hello.txt\<close> stores \<open>HELLO\<close>.
\<close>

definition hello :: bytes where
  "hello = bytes_of ''HELLO''"

definition gzip_hello :: bytes where
  "gzip_hello =
    [0x1F, 0x8B, 0x08, 0x00, 0x00, 0x00, 0x00, 0x00, 0x02, 0x03, 0xF3, 0x70,
     0xF5, 0xF1, 0xF1, 0x07, 0x00, 0x36, 0x64, 0x44, 0xC1, 0x05, 0x00, 0x00,
     0x00]"

definition zlib_hello :: bytes where
  "zlib_hello =
    [0x78, 0x9C, 0xF3, 0x70, 0xF5, 0xF1, 0xF1, 0x07, 0x00, 0x04, 0x4C, 0x01,
     0x75]"

definition zip_hello :: bytes where
  "zip_hello =
    [0x50, 0x4B, 0x03, 0x04, 0x14, 0x00, 0x00, 0x00, 0x00, 0x00, 0x00, 0x00,
     0x21, 0x00, 0x36, 0x64, 0x44, 0xC1, 0x05, 0x00, 0x00, 0x00, 0x05, 0x00,
     0x00, 0x00, 0x09, 0x00, 0x00, 0x00, 0x68, 0x65, 0x6C, 0x6C, 0x6F, 0x2E,
     0x74, 0x78, 0x74, 0x48, 0x45, 0x4C, 0x4C, 0x4F, 0x50, 0x4B, 0x01, 0x02,
     0x14, 0x03, 0x14, 0x00, 0x00, 0x00, 0x00, 0x00, 0x00, 0x00, 0x21, 0x00,
     0x36, 0x64, 0x44, 0xC1, 0x05, 0x00, 0x00, 0x00, 0x05, 0x00, 0x00, 0x00,
     0x09, 0x00, 0x00, 0x00, 0x00, 0x00, 0x00, 0x00, 0x00, 0x00, 0x00, 0x00,
     0x80, 0x01, 0x00, 0x00, 0x00, 0x00, 0x68, 0x65, 0x6C, 0x6C, 0x6F, 0x2E,
     0x74, 0x78, 0x74, 0x50, 0x4B, 0x05, 0x06, 0x00, 0x00, 0x00, 0x00, 0x01,
     0x00, 0x01, 0x00, 0x37, 0x00, 0x00, 0x00, 0x2C, 0x00, 0x00, 0x00, 0x00,
     0x00]"

text \<open>
  Two longer streams of the same five bytes, whose base64 texts have more than 100
  characters: a gzip member that carries a file name, as \<open>gzip.GzipFile\<close> writes it
  for \<open>airframe_parameters_for_the_example_board_revision_a.xml\<close>, and a zlib stream
  with fourteen empty stored blocks before the one that holds \<open>HELLO\<close>.
\<close>

definition gzip_named :: bytes where
  "gzip_named =
    [0x1F, 0x8B, 0x08, 0x08, 0x00, 0x00, 0x00, 0x00, 0x02, 0xFF, 0x61, 0x69,
     0x72, 0x66, 0x72, 0x61, 0x6D, 0x65, 0x5F, 0x70, 0x61, 0x72, 0x61, 0x6D,
     0x65, 0x74, 0x65, 0x72, 0x73, 0x5F, 0x66, 0x6F, 0x72, 0x5F, 0x74, 0x68,
     0x65, 0x5F, 0x65, 0x78, 0x61, 0x6D, 0x70, 0x6C, 0x65, 0x5F, 0x62, 0x6F,
     0x61, 0x72, 0x64, 0x5F, 0x72, 0x65, 0x76, 0x69, 0x73, 0x69, 0x6F, 0x6E,
     0x5F, 0x61, 0x2E, 0x78, 0x6D, 0x6C, 0x00, 0xF3, 0x70, 0xF5, 0xF1, 0xF1,
     0x07, 0x00, 0x36, 0x64, 0x44, 0xC1, 0x05, 0x00, 0x00, 0x00]"

definition zlib_flushed :: bytes where
  "zlib_flushed =
    [0x78, 0x01, 0x00, 0x00, 0x00, 0xFF, 0xFF, 0x00, 0x00, 0x00, 0xFF, 0xFF,
     0x00, 0x00, 0x00, 0xFF, 0xFF, 0x00, 0x00, 0x00, 0xFF, 0xFF, 0x00, 0x00,
     0x00, 0xFF, 0xFF, 0x00, 0x00, 0x00, 0xFF, 0xFF, 0x00, 0x00, 0x00, 0xFF,
     0xFF, 0x00, 0x00, 0x00, 0xFF, 0xFF, 0x00, 0x00, 0x00, 0xFF, 0xFF, 0x00,
     0x00, 0x00, 0xFF, 0xFF, 0x00, 0x00, 0x00, 0xFF, 0xFF, 0x00, 0x00, 0x00,
     0xFF, 0xFF, 0x00, 0x00, 0x00, 0xFF, 0xFF, 0x00, 0x00, 0x00, 0xFF, 0xFF,
     0x01, 0x05, 0x00, 0xFA, 0xFF, 0x48, 0x45, 0x4C, 0x4C, 0x4F, 0x04, 0x4C,
     0x01, 0x75]"

text \<open>
  The same zlib stream with the header of a 1 KiB window, \<open>28 15\<close>, which
  \<open>zlib.decompress\<close> accepts as well.
\<close>

definition zlib_small :: bytes where
  "zlib_small =
    [0x28, 0x15, 0x00, 0x00, 0x00, 0xFF, 0xFF, 0x00, 0x00, 0x00, 0xFF, 0xFF,
     0x00, 0x00, 0x00, 0xFF, 0xFF, 0x00, 0x00, 0x00, 0xFF, 0xFF, 0x00, 0x00,
     0x00, 0xFF, 0xFF, 0x00, 0x00, 0x00, 0xFF, 0xFF, 0x00, 0x00, 0x00, 0xFF,
     0xFF, 0x00, 0x00, 0x00, 0xFF, 0xFF, 0x00, 0x00, 0x00, 0xFF, 0xFF, 0x00,
     0x00, 0x00, 0xFF, 0xFF, 0x00, 0x00, 0x00, 0xFF, 0xFF, 0x00, 0x00, 0x00,
     0xFF, 0xFF, 0x00, 0x00, 0x00, 0xFF, 0xFF, 0x00, 0x00, 0x00, 0xFF, 0xFF,
     0x01, 0x05, 0x00, 0xFA, 0xFF, 0x48, 0x45, 0x4C, 0x4C, 0x4F, 0x04, 0x4C,
     0x01, 0x75]"

text \<open>
  The base64 texts of \<open>gzip_hello\<close> (36 characters), \<open>gzip_named\<close> (112),
  \<open>zlib_flushed\<close> (116) and \<open>zlib_small\<close> (116).
\<close>

definition gzip_hello_b64 :: pystr where
  "gzip_hello_b64 = str_of ''H4sIAAAAAAACA/Nw9fHxBwA2ZETBBQAAAA==''"

definition gzip_named_b64 :: pystr where
  "gzip_named_b64 = str_of
     (''H4sICAAAAAAC/2FpcmZyYW1lX3BhcmFtZXRlcnNfZm9yX3RoZV9leGFtcGxlX2Jv'' @
      ''YXJkX3JldmlzaW9uX2EueG1sAPNw9fHxBwA2ZETBBQAAAA=='')"

definition zlib_small_b64 :: pystr where
  "zlib_small_b64 = str_of
     (''KBUAAAD//wAAAP//AAAA//8AAAD//wAAAP//AAAA//8AAAD//wAAAP//AAAA//8A'' @
      ''AAD//wAAAP//AAAA//8AAAD//wAAAP//AQUA+v9IRUxMTwRMAXU='')"

definition zlib_flushed_b64 :: pystr where
  "zlib_flushed_b64 = str_of
     (''eAEAAAD//wAAAP//AAAA//8AAAD//wAAAP//AAAA//8AAAD//wAAAP//AAAA//8A'' @
      ''AAD//wAAAP//AAAA//8AAAD//wAAAP//AQUA+v9IRUxMTwRMAXU='')"

definition hello_zipfile :: zipfile where
  "hello_zipfile =
     \<lparr>namelist = [str_of ''hello.txt''], zread = map_of [(str_of ''hello.txt'', hello)]\<rparr>"

text \<open>The base64 text of \<open>zip_hello\<close> (164 characters).\<close>

definition zip_hello_b64 :: pystr where
  "zip_hello_b64 = str_of
     (''UEsDBBQAAAAAAAAAIQA2ZETBBQAAAAUAAAAJAAAAaGVsbG8udHh0SEVMTE9QSwEC'' @
      ''FAMUAAAAAAAAACEANmREwQUAAAAFAAAACQAAAAAAAAAAAAAAgAEAAAAAaGVsbG8u'' @
      ''dHh0UEsFBgAAAAABAAEANwAAACwAAAAAAA=='')"

text \<open>
  The metadata objects of the examples: the end-to-end scenario of the specification,
  whose \<open>image\<close> is the base64 text of \<open>BINARYDATA\<close> (16 characters); the same with the
  base64 text of eight times \<open>BINARYDATA\<close> (108 characters); and the two scalar fields
  alone.
\<close>

definition image_short :: pystr where
  "image_short = str_of ''QklOQVJZREFUQQ==''"

definition image_long :: pystr where
  "image_long = str_of
     (''QklOQVJZREFUQUJJTkFSWURBVEFCSU5BUllEQVRBQklOQVJZREFUQU'' @
      ''JJTkFSWURBVEFCSU5BUllEQVRBQklOQVJZREFUQUJJTkFSWURBVEE='')"

definition binarydata :: bytes where
  "binarydata = bytes_of ''BINARYDATA''"

definition md_scalars :: pydict where
  "md_scalars = [(str_of ''board_id'', JInt 9), (str_of ''description'', JStr (str_of ''x''))]"

definition md_image :: "pystr \<Rightarrow> pydict" where
  "md_image v =
     [(str_of ''board_id'', JInt 9), (str_of ''image'', JStr v),
      (str_of ''description'', JStr (str_of ''x''))]"

definition md_short_text :: pystr where
  \<open>md_short_text =
     str_of ''{"board_id": 9, "image": "QklOQVJZREFUQQ==", "description": "x"}''\<close>

text \<open>
  What \<open>json.dump(d, f, indent=2, ensure_ascii=False)\<close> writes for the dicts of the
  examples, chunk by chunk.
\<close>

definition nl_indent :: pystr where
  "nl_indent = [0x0A, 0x20, 0x20]"

definition chunks_short :: "pystr list" where
  \<open>chunks_short =
    [str_of ''{'',
     nl_indent,
     str_of ''"board_id"'',
     str_of '': '',
     str_of ''9'',
     str_of '','' @ nl_indent,
     str_of ''"image"'',
     str_of '': '',
     str_of ''"QklOQVJZREFUQQ=="'',
     str_of '','' @ nl_indent,
     str_of ''"description"'',
     str_of '': '',
     str_of ''"x"'',
     [0x0A],
     str_of ''}'']\<close>

definition chunks_scalars :: "pystr list" where
  \<open>chunks_scalars =
    [str_of ''{'',
     nl_indent,
     str_of ''"board_id"'',
     str_of '': '',
     str_of ''9'',
     str_of '','' @ nl_indent,
     str_of ''"description"'',
     str_of '': '',
     str_of ''"x"'',
     [0x0A],
     str_of ''}'']\<close>

definition chunks_b :: "pystr list" where
  \<open>chunks_b =
    [str_of ''{'',
     nl_indent,
     str_of ''"b"'',
     str_of '': '',
     str_of ''1'',
     [0x0A],
     str_of ''}'']\<close>

text \<open>
  The environment itself. The decompressors, \<open>json.loads\<close> and \<open>json.dump\<close> are tables
  of what CPython answers on the inputs above; on any other input the table has no
  answer (the decompressors and \<open>json.loads\<close> raise, \<open>json.dump\<close> writes nothing), and
  no example asks for one. Every path without a NUL character can be opened and
  created, and the console is UTF-8: a message can be printed when its key and path
  can be encoded.
\<close>

definition example_env :: env where
  "example_env =
     \<lparr>b64decode = py_b64decode,
      gzip_decompress = map_of [(gzip_hello, hello), (gzip_named, hello)],
      zlib_decompress =
        map_of [(zlib_hello, hello), (zlib_flushed, hello), (zlib_small, hello)],
      zip_open = map_of [(zip_hello, hello_zipfile)],
      utf8_decode = utf8_dec False,
      utf8_decode_replace = (\<lambda>b. case utf8_dec True b of Some t \<Rightarrow> t | None \<Rightarrow> []),
      utf8_encode = py_utf8_encode,
      json_loads = map_of [(str_of ''{}'', []), (md_short_text, md_image image_short)],
      json_iterencode =
        (\<lambda>d. case map_of
                [([], [str_of ''{}'']),
                 (md_image image_short, chunks_short),
                 (md_scalars, chunks_scalars),
                 ([(str_of ''b'', JInt 1)], chunks_b)] d of
              Some cs \<Rightarrow> cs
            | None \<Rightarrow> []),
      can_open = (\<lambda>p. 0 \<notin> set p),
      can_makedirs = (\<lambda>p. 0 \<notin> set p),
      can_print =
        (\<lambda>m. case m of
               DecodeFailed key \<Rightarrow> py_utf8_encode key \<noteq> None
             | WroteText key out_path n \<Rightarrow> py_utf8_encode (key @ out_path) \<noteq> None)\<rparr>"

definition empty_fs :: fs where
  "empty_fs = \<lparr>dirs = {}, files = Map.empty\<rparr>"

text \<open>
  More inputs and outputs of the examples: a metadata object with a \<open>null\<close> field; 101
  and 201 times the letter \<open>A\<close>, which are base64 characters only and one more than a
  multiple of four; the file system with nothing but the output directory; and the
  texts \<open>json.dump\<close> writes, as bytes.
\<close>

definition md_null :: pydict where
  "md_null = [(str_of ''a'', JNull), (str_of ''b'', JInt 1)]"

definition b_json :: bytes where
  \<open>b_json = bytes_of ''{'' @ [0x0A] @ bytes_of ''  "b": 1'' @ [0x0A] @ bytes_of ''}''\<close>

definition extracted_fs :: fs where
  "extracted_fs = \<lparr>dirs = {str_of ''extracted''}, files = Map.empty\<rparr>"



definition scalars_json :: bytes where
  \<open>scalars_json =
     bytes_of ''{'' @ [0x0A] @ bytes_of ''  "board_id": 9,'' @ [0x0A] @
     bytes_of ''  "description": "x"'' @ [0x0A] @ bytes_of ''}''\<close>

definition short_json :: bytes where
  \<open>short_json =
     bytes_of ''{'' @ [0x0A] @ bytes_of ''  "board_id": 9,'' @ [0x0A] @
     bytes_of ''  "image": "QklOQVJZREFUQQ==",'' @ [0x0A] @
     bytes_of ''  "description": "x"'' @ [0x0A] @ bytes_of ''}''\<close>

text \<open>
  A firmware file for the entry point: two bytes of noise, the text of the scenario's
  object, two more bytes; and one whose object is empty. \<open>argv0\<close> is \<open>sys.argv\<close>.
\<close>

definition fw_data :: bytes where
  "fw_data = [0x00, 0x01] @ map of_nat md_short_text @ [0xFF, 0x7D]"

definition fw_fs :: fs where
  "fw_fs = \<lparr>dirs = {}, files = [str_of ''fw.px4'' \<mapsto> fw_data]\<rparr>"

definition empty_obj_fs :: fs where
  "empty_obj_fs = \<lparr>dirs = {}, files = [str_of ''fw.px4'' \<mapsto> [0x00] @ bytes_of ''{}'' @ [0xFF]]\<rparr>"

definition argv0 :: "pystr list" where
  "argv0 = [str_of ''extract_meta.py'', str_of ''fw.px4'']"

section \<open>Notions used in the statements\<close>

text \<open>The two objects of the scanner's examples; the second holds an escaped quote.\<close>

definition obj_ab :: bytes where
  \<open>obj_ab = bytes_of ''{"a":1,"b":{"c":2}}''\<close>

definition esc_obj :: bytes where
  \<open>esc_obj = bytes_of ''{"a":"va'' @ [0x5C] @ bytes_of ''"lue"}''\<close>

text \<open>
  Leading noise with three opening braces that nothing closes, and a quoted name.
\<close>

definition brace_noise :: bytes where
  \<open>brace_noise = bytes_of ''{{{ "x":1 ''\<close>

text \<open>
  The scan attempt that starts at \<open>p\<close> runs out: the inner loop reaches the end of the
  buffer, or its scan limit, and the depth has not come back to 0.
\<close>

definition attempt_runs_out :: "bytes \<Rightarrow> int option \<Rightarrow> nat \<Rightarrow> bool" where
  "attempt_runs_out data max_search_len p \<longleftrightarrow>
     walk data (scan_limit data max_search_len p) p scan_init = None"

text \<open>
  The inner loop on the bytes it still has to read, numbered from \<open>k\<close>: the same loop
  as \<open>walk\<close> without the indexing (\<open>walk_run_scan\<close> below).
\<close>

fun run_scan :: "scan_state \<Rightarrow> bytes \<Rightarrow> nat \<Rightarrow> nat option" where
  "run_scan s [] k = None"
| "run_scan s (b # bs) k =
     (case scan_step s b of None \<Rightarrow> Some k | Some s' \<Rightarrow> run_scan s' bs (Suc k))"

text \<open>
  The variables of the inner loop after \<open>k\<close> iterations of the attempt that starts at
  \<open>start\<close>; \<open>None\<close> when the loop has ended before (\<open>walk_scan_state_at\<close> below: the
  loop passes through every such state).
\<close>

fun scan_state_at :: "bytes \<Rightarrow> int \<Rightarrow> nat \<Rightarrow> nat \<Rightarrow> scan_state option" where
  "scan_state_at data limit start 0 = Some scan_init"
| "scan_state_at data limit start (Suc k) =
     (case scan_state_at data limit start k of
        None \<Rightarrow> None
      | Some s \<Rightarrow>
          if int (start + k) < limit then scan_step s (data ! (start + k)) else None)"

text \<open>
  The cascade as the specification words it: an ordered list of attempts, each from
  bytes to optional bytes, of which the first that succeeds gives the result.
\<close>

fun first_some :: "('a \<Rightarrow> 'b option) list \<Rightarrow> 'a \<Rightarrow> 'b option" where
  "first_some [] x = None"
| "first_some (f # fs) x = (case f x of Some r \<Rightarrow> Some r | None \<Rightarrow> first_some fs x)"

text \<open>The base64 alphabet as the specification spells it.\<close>

definition b64_alphabet :: "nat set" where
  "b64_alphabet =
     set (str_of ''ABCDEFGHIJKLMNOPQRSTUVWXYZabcdefghijklmnopqrstuvwxyz0123456789+/='')"

text \<open>
  The file system \<open>s\<close> with the directories and files of \<open>d\<close> laid over it, and the
  same under a \<open>run\<close>. An operation is \<open>framed\<close> when its outcome does not depend on
  the file system it starts from and its effect is to lay what it writes over it.
\<close>

definition fs_over :: "fs \<Rightarrow> fs \<Rightarrow> fs" where
  "fs_over s d = \<lparr>dirs = dirs s \<union> dirs d, files = files s ++ files d\<rparr>"

definition run_over :: "fs \<Rightarrow> run \<Rightarrow> run" where
  "run_over s r =
     (case r of Aborted d \<Rightarrow> Aborted (fs_over s d) | Running d rem \<Rightarrow> Running (fs_over s d) rem)"

definition framed :: "(fs \<Rightarrow> bool \<times> fs) \<Rightarrow> bool" where
  "framed f \<longleftrightarrow> (\<forall>s. f s = (fst (f empty_fs), fs_over s (snd (f empty_fs))))"

section \<open>The scanner\<close>

lemma walk_run_scan:
  "limit \<le> int (length data) \<Longrightarrow>
   walk data limit i s = run_scan s (drop i (take (nat limit) data)) i"
proof (induction data limit i s rule: walk.induct)
  case (1 data limit i s)
  show ?case
  proof (cases "int i < limit")
    case True
    with "1.prems" have il: "i < length (take (nat limit) data)" by simp
    have d: "drop i (take (nat limit) data) = data ! i # drop (Suc i) (take (nat limit) data)"
      using Cons_nth_drop_Suc [OF il] il by simp
    show ?thesis
    proof (cases "scan_step s (data ! i)")
      case None
      with True d show ?thesis by (subst walk.simps) simp
    next
      case (Some s')
      with True d "1.IH" [OF True Some "1.prems"] show ?thesis
        by (subst walk.simps) simp
    qed
  next
    case False
    then have "drop i (take (nat limit) data) = []" by simp
    with False show ?thesis by (subst walk.simps) simp
  qed
qed

lemma run_scan_obj_ab: "run_scan scan_init (obj_ab @ rest) k = Some (k + 18)"
  by (simp add: obj_ab_def bytes_of_def scan_init_def scan_step_def)

text \<open>
  The outer loop. \<open>data.find\<close> returns the next opening brace, so the loop visits the
  opening braces of the buffer from left to right: it passes over each one whose attempt
  runs out (lines 56-57) and returns at the first one whose attempt finds its closing
  brace.
\<close>

lemma find_byte_least:
  "i < length xs \<Longrightarrow> xs ! i = c \<Longrightarrow>
   \<exists>j. find_byte c xs k = Some j \<and> k \<le> j \<and> j \<le> k + i \<and> xs ! (j - k) = c"
proof (induction xs arbitrary: k i)
  case Nil
  then show ?case by simp
next
  case (Cons x xs)
  show ?case
  proof (cases "x = c")
    case True
    then show ?thesis by simp
  next
    case False
    with Cons.prems obtain i' where i': "i = Suc i'" by (cases i) auto
    with Cons.prems have "i' < length xs" and "xs ! i' = c" by simp_all
    from Cons.IH [OF this, of "Suc k"] obtain j
      where "find_byte c xs (Suc k) = Some j" "Suc k \<le> j" "j \<le> Suc k + i'" "xs ! (j - Suc k) = c"
      by blast
    with False i' show ?thesis
      by (auto simp: Suc_diff_le)
  qed
qed

lemma find1_next:
  assumes "k \<le> m" and "m < length data" and "data ! m = c"
  shows "\<exists>j. find1 data c k = Some j \<and> k \<le> j \<and> j \<le> m \<and> data ! j = c"
proof -
  have "m - k < length (drop k data)" and "drop k data ! (m - k) = c"
    using assms by simp_all
  from find_byte_least [OF this, of k] obtain j
    where j: "find_byte c (drop k data) k = Some j" "k \<le> j" "j \<le> k + (m - k)"
      "drop k data ! (j - k) = c"
    by blast
  with assms have "data ! j = c" by simp
  with j assms show ?thesis by (auto simp: find1_def)
qed

lemma scan_from_skips:
  assumes hit: "walk data (scan_limit data msl n) n scan_init = Some i"
    and n: "n < length data" "data ! n = 0x7B"
    and skip: "\<forall>p<n. data ! p = 0x7B \<longrightarrow> attempt_runs_out data msl p"
  shows "start \<le> n \<Longrightarrow> data ! start = 0x7B \<Longrightarrow>
    scan_from data msl (Some start) = Some (py_slice data n (i + 1))"
proof (induction "n - start" arbitrary: start rule: less_induct)
  case less
  show ?case
  proof (cases "start = n")
    case True
    with hit show ?thesis by simp
  next
    case False
    with less.prems have lt: "start < n" by simp
    with skip less.prems have "walk data (scan_limit data msl start) start scan_init = None"
      by (simp add: attempt_runs_out_def)
    then have 1: "scan_from data msl (Some start) = scan_from data msl (find1 data 0x7B (start + 1))"
      by simp
    from lt n find1_next [of "start + 1" n data "0x7B"] obtain j
      where j: "find1 data 0x7B (start + 1) = Some j" "start + 1 \<le> j" "j \<le> n" "data ! j = 0x7B"
      by auto
    then have "n - j < n - start" using lt by simp
    from less.hyps [OF this j(3) j(4)] 1 j(1) show ?thesis by simp
  qed
qed

lemma scan_from_first_balanced:
  assumes bal: "\<not> attempt_runs_out data msl q" and q: "q < length data" "data ! q = 0x7B"
  shows "start \<le> q \<Longrightarrow> data ! start = 0x7B \<Longrightarrow>
    \<exists>p i. start \<le> p \<and> p \<le> q \<and> scan_from data msl (Some start) = Some (py_slice data p (i + 1))"
proof (induction "q - start" arbitrary: start rule: less_induct)
  case less
  show ?case
  proof (cases "walk data (scan_limit data msl start) start scan_init")
    case (Some i)
    then have "scan_from data msl (Some start) = Some (py_slice data start (i + 1))" by simp
    with less.prems show ?thesis by blast
  next
    case None
    with bal have "start \<noteq> q" by (auto simp: attempt_runs_out_def)
    with less.prems have lt: "start < q" by simp
    from None have 1: "scan_from data msl (Some start)
        = scan_from data msl (find1 data 0x7B (start + 1))"
      by simp
    from lt q find1_next [of "start + 1" q data "0x7B"] obtain j
      where j: "find1 data 0x7B (start + 1) = Some j" "start + 1 \<le> j" "j \<le> q" "data ! j = 0x7B"
      by auto
    then have "q - j < q - start" using lt by simp
    from less.hyps [OF this j(3) j(4)] obtain p i
      where "j \<le> p" "p \<le> q" "scan_from data msl (Some j) = Some (py_slice data p (i + 1))"
      by blast
    with 1 j show ?thesis by (intro exI [of _ p] exI [of _ i]) simp
  qed
qed

lemma walk_obj_ab:
  assumes "max_search_len = None \<or> (\<exists>m. max_search_len = Some m \<and> 19 \<le> m)"
  shows "walk (noise1 @ obj_ab @ noise2)
      (scan_limit (noise1 @ obj_ab @ noise2) max_search_len (length noise1))
      (length noise1) scan_init = Some (length noise1 + 18)"
proof -
  let ?data = "noise1 @ obj_ab @ noise2"
  let ?n = "length noise1"
  let ?limit = "scan_limit ?data max_search_len ?n"
  have len: "length obj_ab = 19" by (simp add: obj_ab_def bytes_of_def)
  have lim_le: "?limit \<le> int (length ?data)"
    by (auto simp: scan_limit_def split: option.splits)
  have lim_ge: "int ?n + 19 \<le> ?limit"
    using assms by (auto simp: scan_limit_def len)
  define r where "r = nat ?limit - (?n + 19)"
  have r: "nat ?limit = ?n + 19 + r"
    using lim_ge unfolding r_def by linarith
  have "drop ?n (take (nat ?limit) ?data) = obj_ab @ take r noise2"
    by (simp add: r len)
  then show ?thesis
    using walk_run_scan [OF lim_le, of ?n scan_init] run_scan_obj_ab by simp
qed

text \<open>
  C5, as the code has it. The buffer is noise, then \<open>{"a":1,"b":{"c":2}}\<close>, then noise,
  scanned without a limit or with one of at least the 19 bytes of the object. The scanner
  tries every opening brace of the leading noise first. When each of these attempts runs
  out, the retry of lines 56-57 brings the scanner to the object and it returns exactly
  the object, whatever follows it. When one of them finds a closing brace, the scanner
  returns a slice that starts in the leading noise, not the slice of the object.
\<close>

theorem scanner_noise:
  assumes "data = noise1 @ obj_ab @ noise2"
    and "max_search_len = None \<or> (\<exists>m. max_search_len = Some m \<and> 19 \<le> m)"
  shows "((\<forall>p<length noise1. noise1 ! p = 0x7B \<longrightarrow> attempt_runs_out data max_search_len p) \<longrightarrow>
           find_json_bytes data max_search_len = Some obj_ab) \<and>
         ((\<exists>p<length noise1. noise1 ! p = 0x7B \<and> \<not> attempt_runs_out data max_search_len p) \<longrightarrow>
           (\<exists>p i. p < length noise1 \<and>
                  find_json_bytes data max_search_len = Some (py_slice data p (i + 1))))"
proof (intro conjI impI)
  let ?n = "length noise1"
  have len: "length obj_ab = 19" by (simp add: obj_ab_def bytes_of_def)
  have n: "?n < length data" "data ! ?n = 0x7B"
    using assms(1) by (simp_all add: len) (simp add: obj_ab_def bytes_of_def nth_append)
  have pre: "data ! p = noise1 ! p" if "p < ?n" for p
    using that assms(1) by (simp add: nth_append)
  { assume skip: "\<forall>p<length noise1. noise1 ! p = 0x7B \<longrightarrow> attempt_runs_out data max_search_len p"
    have hit: "walk data (scan_limit data max_search_len ?n) ?n scan_init = Some (?n + 18)"
      using walk_obj_ab [OF assms(2)] assms(1) by simp
    have skip': "\<forall>p<?n. data ! p = 0x7B \<longrightarrow> attempt_runs_out data max_search_len p"
      using skip pre by simp
    from find1_next [of 0 ?n data "0x7B"] n obtain j
      where j: "find1 data 0x7B 0 = Some j" "j \<le> ?n" "data ! j = 0x7B" by auto
    have "scan_from data max_search_len (Some j) = Some (py_slice data ?n (?n + 18 + 1))"
      using scan_from_skips [OF hit n skip' j(2) j(3)] .
    moreover have "py_slice data ?n (?n + 18 + 1) = obj_ab"
      using assms(1) by (simp add: py_slice_def len)
    ultimately show "find_json_bytes data max_search_len = Some obj_ab"
      by (simp add: find_json_bytes_def j(1)) }
  { assume "\<exists>p<length noise1. noise1 ! p = 0x7B \<and> \<not> attempt_runs_out data max_search_len p"
    then obtain q where q: "q < ?n" "noise1 ! q = 0x7B" "\<not> attempt_runs_out data max_search_len q"
      by blast
    then have q': "q < length data" "data ! q = 0x7B" using n pre by simp_all
    from find1_next [of 0 q data "0x7B"] q' obtain j
      where j: "find1 data 0x7B 0 = Some j" "j \<le> q" "data ! j = 0x7B" by auto
    from scan_from_first_balanced [OF q(3) q' j(2) j(3)] obtain p i
      where "p \<le> q" "scan_from data max_search_len (Some j) = Some (py_slice data p (i + 1))"
      by blast
    with q(1) j(1)
    show "\<exists>p i. p < length noise1 \<and>
        find_json_bytes data max_search_len = Some (py_slice data p (i + 1))"
      by (intro exI [of _ p] exI [of _ i]) (simp add: find_json_bytes_def) }
qed

lemma ex_brace_noise_runs_out:
  "list_all (\<lambda>p. brace_noise ! p = 0x7B \<longrightarrow>
      attempt_runs_out (brace_noise @ obj_ab @ bytes_of ''zz'') None p) [0..<10]"
  by code_simp

theorem scanner_noise_witness:
  \<open>find_json_bytes (brace_noise @ obj_ab @ bytes_of ''zz'') None = Some obj_ab \<and>
   (\<exists>p i. p < length (bytes_of ''{}'') \<and>
      find_json_bytes (bytes_of ''{}'' @ obj_ab @ []) None
        = Some (py_slice (bytes_of ''{}'' @ obj_ab @ []) p (i + 1)))\<close>
proof -
  have l: "length brace_noise = 10" by (simp add: brace_noise_def bytes_of_def)
  have "\<forall>p<length brace_noise. brace_noise ! p = 0x7B \<longrightarrow>
      attempt_runs_out (brace_noise @ obj_ab @ bytes_of ''zz'') None p"
    using ex_brace_noise_runs_out unfolding l list_all_iff by simp
  then have 1: "find_json_bytes (brace_noise @ obj_ab @ bytes_of ''zz'') None = Some obj_ab"
    using scanner_noise [of "brace_noise @ obj_ab @ bytes_of ''zz''" brace_noise "bytes_of ''zz''" None]
    by simp
  have b: "\<not> attempt_runs_out (bytes_of ''{}'' @ obj_ab @ []) None 0"
    by code_simp
  have "\<exists>p<length (bytes_of ''{}''). bytes_of ''{}'' ! p = 0x7B \<and>
      \<not> attempt_runs_out (bytes_of ''{}'' @ obj_ab @ []) None p"
    using b by (intro exI [of _ 0]) (simp add: bytes_of_def)
  then have 2: "\<exists>p i. p < length (bytes_of ''{}'') \<and>
      find_json_bytes (bytes_of ''{}'' @ obj_ab @ []) None
        = Some (py_slice (bytes_of ''{}'' @ obj_ab @ []) p (i + 1))"
    using scanner_noise [of "bytes_of ''{}'' @ obj_ab @ []" "bytes_of ''{}''" "[]" None]
    by blast
  from 1 2 show ?thesis by blast
qed

text \<open>
  C5 as stated fails: with the noise \<open>{}\<close> in front, the first balanced object is the
  noise itself.
\<close>

theorem scanner_noise_counterexample:
  "find_json_bytes (bytes_of ''{}'' @ obj_ab @ []) None = Some (bytes_of ''{}'') \<and>
   find_json_bytes (bytes_of ''{}'' @ obj_ab @ []) None \<noteq> Some obj_ab"
  by code_simp

lemma walk_scan_state_at:
  "scan_state_at data limit start k = Some s \<Longrightarrow>
   walk data limit (start + k) s = walk data limit start scan_init"
proof (induction k arbitrary: s)
  case 0
  then show ?case by simp
next
  case (Suc k)
  then obtain t where t: "scan_state_at data limit start k = Some t"
    and lt: "int (start + k) < limit"
    and st: "scan_step t (data ! (start + k)) = Some s"
    by (auto split: option.splits if_splits)
  have "walk data limit (start + k) t = walk data limit (start + Suc k) s"
    using lt st by (subst walk.simps) simp
  with Suc.IH [OF t] show ?case by simp
qed

lemma scan_state_at_inv:
  "data ! start = 0x7B \<Longrightarrow> scan_state_at data limit start k = Some s \<Longrightarrow>
   (escape s \<longrightarrow> in_str s) \<and> (if k = 0 then s = scan_init else 1 \<le> depth s)"
proof (induction k arbitrary: s)
  case 0
  then show ?case by (auto simp: scan_init_def)
next
  case (Suc k)
  then obtain t where t: "scan_state_at data limit start k = Some t"
    and st: "scan_step t (data ! (start + k)) = Some s"
    by (auto split: option.splits if_splits)
  note ih = Suc.IH [OF Suc.prems(1) t]
  show ?case
  proof (cases "k = 0")
    case True
    with ih st Suc.prems(1) show ?thesis
      by (auto simp: scan_step_def scan_init_def)
  next
    case False
    with ih st show ?thesis
      by (auto simp: scan_step_def Let_def split: if_splits)
  qed
qed

text \<open>
  C6. The inner loop passes through every state \<open>scan_state_at\<close> gives, and in every
  state it reaches from a candidate opening brace: \<open>depth\<close> is not negative; a step
  changes \<open>depth\<close> only outside a string; it changes \<open>in_str\<close> only on a double quote
  that is not escaped; it sets \<open>escape\<close> exactly on a backslash inside a string that is
  not itself escaped, and whatever byte comes after that clears it and changes nothing
  else. For the buffer \<open>{"a":"va\"lue"}\<close> the scanner returns the whole
  object.
\<close>

theorem scan_state_invariant:
  assumes "start < length data"
    and "data ! start = 0x7B"
    and "scan_state_at data limit start k = Some s"
  shows "walk data limit (start + k) s = walk data limit start scan_init \<and>
    0 \<le> depth s \<and>
    (\<forall>ch s'. scan_step s ch = Some s' \<longrightarrow>
       (depth s' \<noteq> depth s \<longrightarrow> \<not> in_str s) \<and>
       (in_str s' \<noteq> in_str s \<longrightarrow> ch = 0x22 \<and> \<not> escape s) \<and>
       (escape s' \<longleftrightarrow> in_str s \<and> \<not> escape s \<and> ch = 0x5C)) \<and>
    (escape s \<longrightarrow>
       (\<forall>ch. scan_step s ch = Some (s\<lparr>escape := False\<rparr>))) \<and>
    find_json_bytes esc_obj None = Some esc_obj"
proof -
  have inv: "(escape s \<longrightarrow> in_str s) \<and> (if k = 0 then s = scan_init else 1 \<le> depth s)"
    using scan_state_at_inv [OF assms(2,3)] .
  then have d: "0 \<le> depth s" by (auto simp: scan_init_def split: if_splits)
  have w: "walk data limit (start + k) s = walk data limit start scan_init"
    using walk_scan_state_at [OF assms(3)] .
  have e: "find_json_bytes esc_obj None = Some esc_obj"
    by code_simp
  have st: "\<forall>ch s'. scan_step s ch = Some s' \<longrightarrow>
       (depth s' \<noteq> depth s \<longrightarrow> \<not> in_str s) \<and>
       (in_str s' \<noteq> in_str s \<longrightarrow> ch = 0x22 \<and> \<not> escape s) \<and>
       (escape s' \<longleftrightarrow> in_str s \<and> \<not> escape s \<and> ch = 0x5C)"
    using inv d by (auto simp: scan_step_def Let_def split: if_splits)
  have cl: "escape s \<longrightarrow> (\<forall>ch. scan_step s ch = Some (s\<lparr>escape := False\<rparr>))"
    using inv by (auto simp: scan_step_def)
  from w d st cl e show ?thesis by blast
qed

theorem scan_state_invariant_witness:
  "0 < length esc_obj \<and> esc_obj ! 0 = 0x7B \<and>
   scan_state_at esc_obj 15 0 9 = Some \<lparr>depth = 1, in_str = True, escape = True\<rparr> \<and>
   scan_step \<lparr>depth = 1, in_str = True, escape = True\<rparr> 0x22
     = Some \<lparr>depth = 1, in_str = True, escape = False\<rparr> \<and>
   walk esc_obj 15 0 scan_init = Some 14"
proof -
  have l: "0 < length esc_obj" by (simp add: esc_obj_def bytes_of_def)
  have a: "esc_obj ! 0 = 0x7B" by (simp add: esc_obj_def bytes_of_def)
  have b: "scan_state_at esc_obj 15 0 9 = Some \<lparr>depth = 1, in_str = True, escape = True\<rparr>"
    by code_simp
  have c: "walk esc_obj 15 0 scan_init = Some 14" by code_simp
  have d: "scan_step \<lparr>depth = 1, in_str = True, escape = True\<rparr> 0x22
     = Some \<lparr>depth = 1, in_str = True, escape = False\<rparr>"
    using scan_state_invariant [OF l a b] by simp
  from l a b c d show ?thesis by simp
qed

section \<open>The classifier\<close>

lemma b64_alphabet_ranges:
  "b64_alphabet = {0x41..<0x5B} \<union> {0x61..<0x7B} \<union> {0x30..<0x3A} \<union> {0x2B, 0x2F, 0x3D}"
proof -
  have "str_of ''ABCDEFGHIJKLMNOPQRSTUVWXYZabcdefghijklmnopqrstuvwxyz0123456789+/=''
      = [0x41..<0x5B] @ [0x61..<0x7B] @ [0x30..<0x3A] @ [0x2B, 0x2F, 0x3D]"
    by code_simp
  then have "b64_alphabet = set ([0x41..<0x5B] @ [0x61..<0x7B] @ [0x30..<0x3A] @ [0x2B, 0x2F, 0x3D])"
    by (simp only: b64_alphabet_def)
  also have "\<dots> = {0x41..<0x5B} \<union> {0x61..<0x7B} \<union> {0x30..<0x3A} \<union> {0x2B, 0x2F, 0x3D}"
    by (simp only: set_append set_upt list.set Un_assoc)
  finally show ?thesis .
qed

lemma b64_class_alphabet:
  "b64_class c \<longleftrightarrow> c \<in> b64_alphabet \<or> c = 0x0A \<or> c = 0x0D"
  unfolding b64_alphabet_ranges b64_class_def by auto

lemma b64_re_match_iff: "b64_re_match v \<longleftrightarrow> v \<noteq> [] \<and> list_all b64_class v"
proof
  assume "b64_re_match v"
  then obtain n where n: "1 \<le> n" "n \<le> length v"
    and cls: "list_all b64_class (take n v)" and d: "dollar_at v n"
    by (auto simp: b64_re_match_def list_ex_iff)
  from n have ne: "v \<noteq> []" by auto
  from d show "v \<noteq> [] \<and> list_all b64_class v"
  proof (unfold dollar_at_def, elim disjE conjE)
    assume "n = length v"
    with cls ne show ?thesis by simp
  next
    assume l: "n + 1 = length v" and nl: "v ! n = 0x0A"
    then have "v = take n v @ [v ! n]"
      by (metis Suc_eq_plus1 lessI take_Suc_conv_app_nth take_all order_refl)
    then have "list_all b64_class v = list_all b64_class (take n v @ [v ! n])"
      by (rule arg_cong)
    with cls nl ne show ?thesis by (simp add: b64_class_def)
  qed
next
  assume a: "v \<noteq> [] \<and> list_all b64_class v"
  then have "length v \<in> set [1..<Suc (length v)]" by (cases v) auto
  moreover have "list_all b64_class (take (length v) v) \<and> dollar_at v (length v)"
    using a by (simp add: dollar_at_def)
  ultimately show "b64_re_match v"
    unfolding b64_re_match_def list_ex_iff by blast
qed

text \<open>
  C8. The test that sends a field into the base64 branch holds exactly for a string of
  more than 100 characters, each of the base64 alphabet or a line feed or carriage
  return; so it holds for 300 characters of the alphabet and fails for any 50
  characters.
\<close>

theorem binary_candidate_iff:
  "(binary_candidate val \<longleftrightarrow>
      (\<exists>v. val = JStr v \<and> 100 < length v \<and>
           (\<forall>c\<in>set v. c \<in> b64_alphabet \<or> c = 0x0A \<or> c = 0x0D))) \<and>
   (length v = 300 \<and> set v \<subseteq> b64_alphabet \<longrightarrow> binary_candidate (JStr v)) \<and>
   (length w = 50 \<longrightarrow> \<not> binary_candidate (JStr w))"
proof -
  have main: "\<And>u. binary_candidate (JStr u) \<longleftrightarrow>
      100 < length u \<and> (\<forall>c\<in>set u. c \<in> b64_alphabet \<or> c = 0x0A \<or> c = 0x0D)"
    by (auto simp: binary_candidate_def b64_re_match_iff list_all_iff b64_class_alphabet)
  have 1: "binary_candidate val \<longleftrightarrow>
      (\<exists>v. val = JStr v \<and> 100 < length v \<and>
           (\<forall>c\<in>set v. c \<in> b64_alphabet \<or> c = 0x0A \<or> c = 0x0D))"
  proof (cases val)
    case (JStr u)
    then show ?thesis using main [of u] by simp
  qed (simp_all add: binary_candidate_def)
  have 2: "length v = 300 \<and> set v \<subseteq> b64_alphabet \<longrightarrow> binary_candidate (JStr v)"
    using main [of v] by auto
  have 3: "length w = 50 \<longrightarrow> \<not> binary_candidate (JStr w)"
    using main [of w] by auto
  from 1 2 3 show ?thesis by blast
qed

theorem binary_candidate_iff_witness:
  "binary_candidate (JStr (replicate 300 0x41)) \<and> \<not> binary_candidate (JStr (replicate 50 0x41))
   \<and> \<not> binary_candidate (JInt 7)"
proof -
  have "(0x41::nat) \<in> b64_alphabet" by (simp add: b64_alphabet_def str_of_def)
  then have "length (replicate 300 (0x41::nat)) = 300 \<and> set (replicate 300 (0x41::nat)) \<subseteq> b64_alphabet"
    by simp
  moreover have "length (replicate 50 (0x41::nat)) = 50" by simp
  ultimately show ?thesis
    using binary_candidate_iff [of "JInt 7" "replicate 300 0x41" "replicate 50 0x41"]
    by auto
qed

section \<open>The decode cascade\<close>

lemma try_decompress_first_some:
  "try_decompress e b = first_some [gzip_attempt e, zlib_attempt e, zip_attempt e] b"
  by (simp add: try_decompress_def split: option.splits)

lemma gzip_attempt_Some:
  "gzip_attempt e b = Some r \<longleftrightarrow> prefix [0x1F, 0x8B] b \<and> gzip_decompress e b = Some r"
  by (simp add: gzip_attempt_def)

lemma zlib_attempt_Some:
  "zlib_attempt e b = Some r \<longleftrightarrow> 2 \<le> length b \<and> b ! 0 = 0x78 \<and> zlib_decompress e b = Some r"
  by (auto simp: zlib_attempt_def)

lemma zip_attempt_Some:
  "zip_attempt e b = Some r \<longleftrightarrow>
     prefix [0x50, 0x4B, 0x03, 0x04] b \<and>
     (\<exists>z n ns. zip_open e b = Some z \<and> namelist z = n # ns \<and> zread z n = Some r)"
  by (auto simp: zip_attempt_def split: option.splits list.splits)

subsection \<open>Facts of the example environment\<close>

lemma py_utf8_encode_ascii:
  "\<forall>c\<in>set v. c < 0x80 \<Longrightarrow> py_utf8_encode v = Some (map of_nat v)"
  by (induction v) (simp_all add: utf8_units_def)

lemma b64_class_ascii: "b64_class c \<Longrightarrow> c < 0x80"
  by (auto simp: b64_class_def)

lemma binary_candidate_encode:
  "binary_candidate (JStr v) \<Longrightarrow> py_utf8_encode v = Some (map of_nat v)"
  by (rule py_utf8_encode_ascii)
     (auto simp: binary_candidate_def b64_re_match_iff list_all_iff dest: b64_class_ascii)

lemma ex_zip_candidate: "binary_candidate (JStr zip_hello_b64)"
  by (simp add: binary_candidate_def b64_re_match_iff zip_hello_b64_def str_of_def b64_class_def)

lemma ex_zip_decode: "py_b64decode (map of_nat zip_hello_b64) = Some zip_hello"
  by code_simp

lemma ex_try_zip: "try_decompress example_env zip_hello = Some hello"
  by code_simp

lemma ex_hello_text: "utf8_dec False hello = Some (str_of ''HELLO'')"
  by code_simp

lemma ex_hello_bytes: "py_utf8_encode (str_of ''HELLO'') = Some hello"
  by code_simp

lemma ex_zip_encode: "utf8_encode example_env zip_hello_b64 = Some (map of_nat zip_hello_b64)"
  using binary_candidate_encode [OF ex_zip_candidate] by (simp add: example_env_def)

lemma ex_zip_b64decode: "b64decode example_env (map of_nat zip_hello_b64) = Some zip_hello"
  using ex_zip_decode by (simp add: example_env_def)

lemma ex_save_xml_hello:
  "save_xml_payload example_env (str_of ''extracted'') (str_of ''airframe_xml'') hello empty_fs
     = (True, empty_fs\<lparr>files := [str_of ''extracted/airframe_xml.xml'' \<mapsto> hello]\<rparr>)"
proof -
  have "utf8_decode example_env hello = Some (str_of ''HELLO'')"
    using ex_hello_text by (simp add: example_env_def)
  moreover have "utf8_encode example_env (str_of ''HELLO'') = Some hello"
    using ex_hello_bytes by (simp add: example_env_def)
  moreover have "path_join (str_of ''extracted'') (str_of ''airframe_xml'' @ str_of ''.xml'')
      = str_of ''extracted/airframe_xml.xml''"
    by (simp add: path_join_def str_of_def)
  moreover have "can_open example_env (str_of ''extracted/airframe_xml.xml'')"
    by (simp add: example_env_def str_of_def)
  ultimately show ?thesis
    by (simp add: save_xml_payload_def write_text_def empty_fs_def)
qed

lemma ex_candidates:
  "binary_candidate (JStr gzip_named_b64)"
  "binary_candidate (JStr zlib_flushed_b64)"
  "binary_candidate (JStr zlib_small_b64)"
  "\<not> binary_candidate (JStr gzip_hello_b64)"
  by (simp_all add: binary_candidate_def b64_re_match_iff gzip_named_b64_def zlib_flushed_b64_def
      zlib_small_b64_def gzip_hello_b64_def str_of_def b64_class_def)

lemma ex_gzip_named_decode: "py_b64decode (map of_nat gzip_named_b64) = Some gzip_named"
  by code_simp

lemma ex_zlib_flushed_decode: "py_b64decode (map of_nat zlib_flushed_b64) = Some zlib_flushed"
  by code_simp

lemma ex_zlib_small_decode: "py_b64decode (map of_nat zlib_small_b64) = Some zlib_small"
  by code_simp

lemma ex_gzip_hello_decode: "py_b64decode (map of_nat gzip_hello_b64) = Some gzip_hello"
  by code_simp

lemma ex_zlib_small_not_text: "utf8_dec False zlib_small = None"
  by code_simp

lemma ex_try_small: "try_decompress example_env zlib_small = None"
  by code_simp

lemma ex_try_gzip_hello: "try_decompress example_env gzip_hello = Some hello"
  by code_simp

lemma ex_zlib_small_library: "zlib_decompress example_env zlib_small = Some hello"
  by code_simp

lemma ex_xml_paths:
  "path_join (str_of ''extracted'') (str_of ''airframe_xml'' @ str_of ''.xml'')
     = str_of ''extracted/airframe_xml.xml''"
  "path_join (str_of ''extracted'') (str_of ''parameter_xml'' @ str_of ''.xml'')
     = str_of ''extracted/parameter_xml.xml''"
  "path_join (str_of ''extracted'') (str_of ''airframe_xml'' @ str_of ''.bin'')
     = str_of ''extracted/airframe_xml.bin''"
  "path_join (str_of ''extracted'') (str_of ''payload'' @ str_of ''.bin'')
     = str_of ''extracted/payload.bin''"
  by (simp_all add: path_join_def str_of_def)

subsection \<open>Which fields are decompressed\<close>

text \<open>
  C2, as the code has it. For a field that passes the test of line 160 and whose base64
  text decodes: under the key \<open>airframe_xml\<close> or \<open>parameter_xml\<close> the decoded bytes go
  through the attempts gzip, zlib, zip in this order, the first that succeeds replacing
  them, before they are written; each attempt needs its signature and gives way to the
  next when it raises. Under any other key the decoded bytes are written as they are,
  to \<open>firmware.bin\<close> for \<open>image\<close> and to \<open><key>.bin\<close> otherwise. When the write raises,
  the handler of line 249 prints its message and the body goes on at line 253.
\<close>

theorem cascade_only_for_xml_keys:
  assumes "binary_candidate (JStr v)"
    and "utf8_encode e v = Some vb"
    and "b64decode e vb = Some decoded"
  shows "process_field e output_dir key (JStr v) s remaining =
     (case (if key = str_of ''image'' then
              write_binary e (path_join output_dir (str_of ''firmware.bin'')) decoded s
            else if key = str_of ''airframe_xml'' \<or> key = str_of ''parameter_xml'' then
              save_xml_payload e output_dir key
                (case first_some [gzip_attempt e, zlib_attempt e, zip_attempt e] decoded of
                   Some decompressed \<Rightarrow> decompressed
                 | None \<Rightarrow> decoded) s
            else write_binary e (path_join output_dir (key @ str_of ''.bin'')) decoded s) of
        (True, s') \<Rightarrow> Running s' remaining
      | (False, s') \<Rightarrow>
          if can_print e (DecodeFailed key)
          then store_plain e output_dir key (JStr v) s' remaining
          else Aborted s')
     \<and> (\<forall>b r. gzip_attempt e b = Some r \<longrightarrow> prefix [0x1F, 0x8B] b \<and> gzip_decompress e b = Some r)
     \<and> (\<forall>b r. zlib_attempt e b = Some r \<longrightarrow>
            2 \<le> length b \<and> b ! 0 = 0x78 \<and> zlib_decompress e b = Some r)
     \<and> (\<forall>b r. zip_attempt e b = Some r \<longrightarrow>
            prefix [0x50, 0x4B, 0x03, 0x04] b \<and>
            (\<exists>z n ns. zip_open e b = Some z \<and> namelist z = n # ns \<and> zread z n = Some r))"
proof -
  have "process_field e output_dir key (JStr v) s remaining =
     (case (if key = str_of ''image'' then
              write_binary e (path_join output_dir (str_of ''firmware.bin'')) decoded s
            else if key = str_of ''airframe_xml'' \<or> key = str_of ''parameter_xml'' then
              save_xml_payload e output_dir key
                (case first_some [gzip_attempt e, zlib_attempt e, zip_attempt e] decoded of
                   Some decompressed \<Rightarrow> decompressed
                 | None \<Rightarrow> decoded) s
            else write_binary e (path_join output_dir (key @ str_of ''.bin'')) decoded s) of
        (True, s') \<Rightarrow> Running s' remaining
      | (False, s') \<Rightarrow>
          if can_print e (DecodeFailed key)
          then store_plain e output_dir key (JStr v) s' remaining
          else Aborted s')"
    using assms
    by (auto simp: process_field_def decode_field_def xml_key_def
        try_decompress_def binary_candidate_def split: option.splits)
  then show ?thesis
    using gzip_attempt_Some zlib_attempt_Some zip_attempt_Some by blast
qed

theorem cascade_only_for_xml_keys_witness:
  "process_field example_env (str_of ''extracted'') (str_of ''airframe_xml'')
     (JStr zip_hello_b64) empty_fs []
   = Running (empty_fs\<lparr>files := [str_of ''extracted/airframe_xml.xml'' \<mapsto> hello]\<rparr>) []"
proof -
  have k: "str_of ''airframe_xml'' \<noteq> str_of ''image''" by (simp add: str_of_def)
  have f: "first_some [gzip_attempt example_env, zlib_attempt example_env,
      zip_attempt example_env] zip_hello = Some hello"
    using ex_try_zip by (simp add: try_decompress_first_some)
  show ?thesis
    using cascade_only_for_xml_keys [OF ex_zip_candidate ex_zip_encode ex_zip_b64decode,
        of "str_of ''extracted''" "str_of ''airframe_xml''" empty_fs "[]"]
    by (simp add: k f ex_save_xml_hello del: first_some.simps)
qed

text \<open>
  C2 as stated fails for the key \<open>image\<close>: the value is the base64 text of a zip archive,
  it passes the test and decodes, the cascade would give \<open>HELLO\<close>, and \<open>firmware.bin\<close>
  holds the archive itself.
\<close>

theorem cascade_key_counterexample:
  "binary_candidate (JStr zip_hello_b64) \<and>
   utf8_encode example_env zip_hello_b64 = Some (map of_nat zip_hello_b64) \<and>
   b64decode example_env (map of_nat zip_hello_b64) = Some zip_hello \<and>
   try_decompress example_env zip_hello = Some hello \<and>
   process_field example_env (str_of ''extracted'') (str_of ''image'')
     (JStr zip_hello_b64) empty_fs []
   = Running (empty_fs\<lparr>files := [str_of ''extracted/firmware.bin'' \<mapsto> zip_hello]\<rparr>) [] \<and>
   zip_hello \<noteq> hello"
proof -
  have p: "path_join (str_of ''extracted'') (str_of ''firmware.bin'') = str_of ''extracted/firmware.bin''"
    by (simp add: path_join_def str_of_def)
  have o: "can_open example_env (str_of ''extracted/firmware.bin'')"
    by (simp add: example_env_def str_of_def)
  have "process_field example_env (str_of ''extracted'') (str_of ''image'')
     (JStr zip_hello_b64) empty_fs []
   = Running (empty_fs\<lparr>files := [str_of ''extracted/firmware.bin'' \<mapsto> zip_hello]\<rparr>) []"
    using ex_zip_candidate ex_zip_encode ex_zip_b64decode
    by (simp add: process_field_def decode_field_def write_binary_def p o empty_fs_def)
  moreover have "zip_hello \<noteq> hello" by (simp add: zip_hello_def hello_def bytes_of_def)
  ultimately show ?thesis
    using ex_zip_candidate ex_zip_encode ex_zip_b64decode ex_try_zip by simp
qed

subsection \<open>The round trip\<close>

text \<open>
  C7, as the code has it. The code keeps no tag of the format: which attempt answers is
  the only trace of it. The loop body decodes a value only when it passes the test of
  line 160 (more than 100 characters, of the base64 alphabet and line breaks only), it
  calls \<open>try_decompress\<close> only under the keys \<open>airframe_xml\<close> and \<open>parameter_xml\<close>, and the
  zlib attempt reads only bytes that start with \<open>0x78\<close>. For such a value under such a
  key, when the decoded bytes are a gzip stream of \<open>HELLO\<close>, a zlib stream of \<open>HELLO\<close>
  that starts with \<open>0x78\<close>, or a zip archive whose first name reads as \<open>HELLO\<close>, the loop
  body writes \<open>HELLO\<close> to \<open><key>.xml\<close> and goes on to the next field. The gzip attempt
  answers in the first case, the zlib attempt in the second after the gzip attempt gave
  nothing, the zip attempt in the third after both gave nothing. The library calls are
  parameters: the text of \<open>HELLO\<close> is what \<open>decode\<close> gives, and the file can be opened.
\<close>

theorem cascade_roundtrip:
  assumes "xml_key key"
    and "binary_candidate (JStr v)"
    and "utf8_encode e v = Some vb"
    and "b64decode e vb = Some c"
    and "(prefix [0x1F, 0x8B] c \<and> gzip_decompress e c = Some hello) \<or>
         (2 \<le> length c \<and> c ! 0 = 0x78 \<and> zlib_decompress e c = Some hello) \<or>
         (prefix [0x50, 0x4B, 0x03, 0x04] c \<and>
          (\<exists>z n ns. zip_open e c = Some z \<and> namelist z = n # ns \<and> zread z n = Some hello))"
    and "utf8_decode e hello = Some t"
    and "utf8_encode e t = Some hello"
    and "can_open e (path_join output_dir (key @ str_of ''.xml''))"
  shows "process_field e output_dir key (JStr v) s rem
       = Running (s\<lparr>files := (files s)(path_join output_dir (key @ str_of ''.xml'') \<mapsto> hello)\<rparr>)
           rem \<and>
     try_decompress e c = Some hello \<and>
     (prefix [0x1F, 0x8B] c \<longrightarrow> gzip_attempt e c = Some hello) \<and>
     (c ! 0 = 0x78 \<longrightarrow> gzip_attempt e c = None \<and> zlib_attempt e c = Some hello) \<and>
     (prefix [0x50, 0x4B, 0x03, 0x04] c \<longrightarrow>
        gzip_attempt e c = None \<and> zlib_attempt e c = None \<and> zip_attempt e c = Some hello)"
proof -
  have a: "try_decompress e c = Some hello \<and>
     (prefix [0x1F, 0x8B] c \<longrightarrow> gzip_attempt e c = Some hello) \<and>
     (c ! 0 = 0x78 \<longrightarrow> gzip_attempt e c = None \<and> zlib_attempt e c = Some hello) \<and>
     (prefix [0x50, 0x4B, 0x03, 0x04] c \<longrightarrow>
        gzip_attempt e c = None \<and> zlib_attempt e c = None \<and> zip_attempt e c = Some hello)"
    using assms(5)
  proof (elim disjE conjE exE)
    assume g: "prefix [0x1F, 0x8B] c" "gzip_decompress e c = Some hello"
    then obtain r where "c = [0x1F, 0x8B] @ r" by (auto simp: prefix_def)
    then have "c ! 0 \<noteq> 0x78" and "\<not> prefix [0x50, 0x4B, 0x03, 0x04] c" by simp_all
    with g show ?thesis by (simp add: try_decompress_def gzip_attempt_def)
  next
    assume z: "2 \<le> length c" "c ! 0 = 0x78" "zlib_decompress e c = Some hello"
    then obtain x y r where c: "c = x # y # r"
      by (cases c; cases "tl c") auto
    with z have "x = 0x78" by simp
    with c have "\<not> prefix [0x1F, 0x8B] c" and "\<not> prefix [0x50, 0x4B, 0x03, 0x04] c" by simp_all
    with z show ?thesis
      by (simp add: try_decompress_def gzip_attempt_def zlib_attempt_def)
  next
    fix z n ns
    assume p: "prefix [0x50, 0x4B, 0x03, 0x04] c" "zip_open e c = Some z" "namelist z = n # ns"
      "zread z n = Some hello"
    then obtain r where "c = [0x50, 0x4B, 0x03, 0x04] @ r" by (auto simp: prefix_def)
    then have "\<not> prefix [0x1F, 0x8B] c" and "c ! 0 \<noteq> 0x78" by simp_all
    with p show ?thesis
      by (simp add: try_decompress_def gzip_attempt_def zlib_attempt_def zip_attempt_def)
  qed
  have k: "key \<noteq> str_of ''image''"
    using assms(1) by (auto simp: xml_key_def str_of_def)
  have w: "write_text e (path_join output_dir (key @ str_of ''.xml'')) t s
      = (True, s\<lparr>files := (files s)(path_join output_dir (key @ str_of ''.xml'') \<mapsto> hello)\<rparr>)"
    using assms(7,8) by (simp add: write_text_def)
  have "decode_field e output_dir key v s
      = (True, s\<lparr>files := (files s)(path_join output_dir (key @ str_of ''.xml'') \<mapsto> hello)\<rparr>)"
    using assms(1,3,4,6) a k by (simp add: decode_field_def save_xml_payload_def w)
  then have "process_field e output_dir key (JStr v) s rem
       = Running (s\<lparr>files := (files s)(path_join output_dir (key @ str_of ''.xml'') \<mapsto> hello)\<rparr>)
           rem"
    using assms(2) by (simp add: process_field_def)
  with a show ?thesis by blast
qed

theorem cascade_roundtrip_witness:
  "process_field example_env (str_of ''extracted'') (str_of ''airframe_xml'')
     (JStr gzip_named_b64) empty_fs []
   = Running (empty_fs\<lparr>files := [str_of ''extracted/airframe_xml.xml'' \<mapsto> hello]\<rparr>) [] \<and>
   gzip_attempt example_env gzip_named = Some hello \<and>
   process_field example_env (str_of ''extracted'') (str_of ''parameter_xml'')
     (JStr zlib_flushed_b64) empty_fs []
   = Running (empty_fs\<lparr>files := [str_of ''extracted/parameter_xml.xml'' \<mapsto> hello]\<rparr>) [] \<and>
   zlib_attempt example_env zlib_flushed = Some hello \<and>
   process_field example_env (str_of ''extracted'') (str_of ''airframe_xml'')
     (JStr zip_hello_b64) empty_fs []
   = Running (empty_fs\<lparr>files := [str_of ''extracted/airframe_xml.xml'' \<mapsto> hello]\<rparr>) [] \<and>
   zip_attempt example_env zip_hello = Some hello"
proof -
  have x: "xml_key (str_of ''airframe_xml'')" "xml_key (str_of ''parameter_xml'')"
    by (simp_all add: xml_key_def)
  have u: "utf8_decode example_env hello = Some (str_of ''HELLO'')"
    using ex_hello_text by (simp add: example_env_def)
  have b: "utf8_encode example_env (str_of ''HELLO'') = Some hello"
    using ex_hello_bytes by (simp add: example_env_def)
  have o: "can_open example_env
        (path_join (str_of ''extracted'') (str_of ''airframe_xml'' @ str_of ''.xml''))"
      "can_open example_env
        (path_join (str_of ''extracted'') (str_of ''parameter_xml'' @ str_of ''.xml''))"
    by (simp_all add: ex_xml_paths) (simp_all add: example_env_def str_of_def)
  have e1: "utf8_encode example_env gzip_named_b64 = Some (map of_nat gzip_named_b64)"
    using binary_candidate_encode [OF ex_candidates(1)] by (simp add: example_env_def)
  have e2: "utf8_encode example_env zlib_flushed_b64 = Some (map of_nat zlib_flushed_b64)"
    using binary_candidate_encode [OF ex_candidates(2)] by (simp add: example_env_def)
  have d1: "b64decode example_env (map of_nat gzip_named_b64) = Some gzip_named"
    using ex_gzip_named_decode by (simp add: example_env_def)
  have d2: "b64decode example_env (map of_nat zlib_flushed_b64) = Some zlib_flushed"
    using ex_zlib_flushed_decode by (simp add: example_env_def)
  have g: "prefix [0x1F, 0x8B] gzip_named \<and> gzip_decompress example_env gzip_named = Some hello"
    by (simp add: gzip_named_def gzip_hello_def example_env_def)
  have z: "2 \<le> length zlib_flushed \<and> zlib_flushed ! 0 = 0x78 \<and>
      zlib_decompress example_env zlib_flushed = Some hello"
    by (simp add: zlib_flushed_def zlib_hello_def example_env_def)
  have p: "prefix [0x50, 0x4B, 0x03, 0x04] zip_hello \<and>
      (\<exists>z n ns. zip_open example_env zip_hello = Some z \<and> namelist z = n # ns \<and>
         zread z n = Some hello)"
    by (simp add: zip_hello_def example_env_def hello_zipfile_def)
  have 1: "process_field example_env (str_of ''extracted'') (str_of ''airframe_xml'')
       (JStr gzip_named_b64) empty_fs []
     = Running (empty_fs\<lparr>files := [str_of ''extracted/airframe_xml.xml'' \<mapsto> hello]\<rparr>) [] \<and>
     gzip_attempt example_env gzip_named = Some hello"
    using cascade_roundtrip [OF x(1) ex_candidates(1) e1 d1 _ u b o(1), of empty_fs "[]"] g
    by (simp add: ex_xml_paths empty_fs_def)
  have 2: "process_field example_env (str_of ''extracted'') (str_of ''parameter_xml'')
       (JStr zlib_flushed_b64) empty_fs []
     = Running (empty_fs\<lparr>files := [str_of ''extracted/parameter_xml.xml'' \<mapsto> hello]\<rparr>) [] \<and>
     zlib_attempt example_env zlib_flushed = Some hello"
    using cascade_roundtrip [OF x(2) ex_candidates(2) e2 d2 _ u b o(2), of empty_fs "[]"] z
    by (simp add: ex_xml_paths empty_fs_def)
  have 3: "process_field example_env (str_of ''extracted'') (str_of ''airframe_xml'')
       (JStr zip_hello_b64) empty_fs []
     = Running (empty_fs\<lparr>files := [str_of ''extracted/airframe_xml.xml'' \<mapsto> hello]\<rparr>) [] \<and>
     zip_attempt example_env zip_hello = Some hello"
    using cascade_roundtrip [OF x(1) ex_zip_candidate ex_zip_encode ex_zip_b64decode _ u b o(1),
        of empty_fs "[]"] p
    by (simp add: ex_xml_paths empty_fs_def)
  from 1 2 3 show ?thesis by simp
qed

text \<open>
  C7 as stated fails. The base64 text of \<open>gzip.compress(b"HELLO")\<close> has 36 characters:
  it does not pass the test of line 160, and under \<open>airframe_xml\<close> the text itself is
  written to \<open>airframe_xml.xml\<close>. The zlib stream with the header \<open>28 15\<close> passes the
  test and decodes, \<open>zlib.decompress\<close> would give \<open>HELLO\<close>, but the zlib attempt refuses
  its first byte and the stream itself is written to \<open>airframe_xml.bin\<close>. Under the key
  \<open>payload\<close> the gzip stream is written as it is to \<open>payload.bin\<close>.
\<close>

theorem cascade_roundtrip_counterexample:
  "length gzip_hello_b64 = 36 \<and>
   \<not> binary_candidate (JStr gzip_hello_b64) \<and>
   b64decode example_env (map of_nat gzip_hello_b64) = Some gzip_hello \<and>
   try_decompress example_env gzip_hello = Some hello \<and>
   process_field example_env (str_of ''extracted'') (str_of ''airframe_xml'')
     (JStr gzip_hello_b64) empty_fs []
   = Running (empty_fs\<lparr>files :=
        [str_of ''extracted/airframe_xml.xml'' \<mapsto> map of_nat gzip_hello_b64]\<rparr>) [] \<and>
   map of_nat gzip_hello_b64 \<noteq> hello \<and>
   binary_candidate (JStr zlib_small_b64) \<and>
   b64decode example_env (map of_nat zlib_small_b64) = Some zlib_small \<and>
   zlib_decompress example_env zlib_small = Some hello \<and>
   process_field example_env (str_of ''extracted'') (str_of ''airframe_xml'')
     (JStr zlib_small_b64) empty_fs []
   = Running (empty_fs\<lparr>files := [str_of ''extracted/airframe_xml.bin'' \<mapsto> zlib_small]\<rparr>) [] \<and>
   zlib_small \<noteq> hello \<and>
   binary_candidate (JStr gzip_named_b64) \<and>
   b64decode example_env (map of_nat gzip_named_b64) = Some gzip_named \<and>
   try_decompress example_env gzip_named = Some hello \<and>
   process_field example_env (str_of ''extracted'') (str_of ''payload'')
     (JStr gzip_named_b64) empty_fs []
   = Running (empty_fs\<lparr>files := [str_of ''extracted/payload.bin'' \<mapsto> gzip_named]\<rparr>) [] \<and>
   gzip_named \<noteq> hello"
proof -
  have l: "length gzip_hello_b64 = 36" by (simp add: gzip_hello_b64_def str_of_def)
  have d0: "b64decode example_env (map of_nat gzip_hello_b64) = Some gzip_hello"
    using ex_gzip_hello_decode by (simp add: example_env_def)
  have lt: "long_text (str_of ''airframe_xml'') gzip_hello_b64"
    by (simp add: long_text_def str_of_def suffix_def)
  have tp: "path_join (str_of ''extracted'')
        (str_of ''airframe_xml'' @ str_of ''.'' @ text_ext (str_of ''airframe_xml''))
      = str_of ''extracted/airframe_xml.xml''"
    by (simp add: path_join_def text_ext_def xml_key_def str_of_def)
  have e0: "py_utf8_encode gzip_hello_b64 = Some (map of_nat gzip_hello_b64)"
    by (rule py_utf8_encode_ascii) (simp add: gzip_hello_b64_def str_of_def)
  have w0: "write_text example_env (str_of ''extracted/airframe_xml.xml'') gzip_hello_b64 empty_fs
      = (True, empty_fs\<lparr>files :=
           [str_of ''extracted/airframe_xml.xml'' \<mapsto> map of_nat gzip_hello_b64]\<rparr>)"
    using e0 by (simp add: write_text_def example_env_def str_of_def empty_fs_def)
  have r0: "can_print example_env
      (WroteText (str_of ''airframe_xml'') (str_of ''extracted/airframe_xml.xml'')
         (length gzip_hello_b64))"
    by (simp add: example_env_def str_of_def utf8_units_def)
  have 1: "process_field example_env (str_of ''extracted'') (str_of ''airframe_xml'')
       (JStr gzip_hello_b64) empty_fs []
     = Running (empty_fs\<lparr>files :=
          [str_of ''extracted/airframe_xml.xml'' \<mapsto> map of_nat gzip_hello_b64]\<rparr>) []"
    using ex_candidates(4) lt r0
    by (simp add: process_field_def store_plain_def tp w0)
  have n1: "map of_nat gzip_hello_b64 \<noteq> hello"
    by (simp add: gzip_hello_b64_def hello_def str_of_def bytes_of_def)
  have x: "xml_key (str_of ''airframe_xml'')" by (simp add: xml_key_def)
  have e2: "utf8_encode example_env zlib_small_b64 = Some (map of_nat zlib_small_b64)"
    using binary_candidate_encode [OF ex_candidates(3)] by (simp add: example_env_def)
  have d2: "b64decode example_env (map of_nat zlib_small_b64) = Some zlib_small"
    using ex_zlib_small_decode by (simp add: example_env_def)
  have u2: "utf8_decode example_env zlib_small = None"
    using ex_zlib_small_not_text by (simp add: example_env_def)
  have o2: "can_open example_env (str_of ''extracted/airframe_xml.bin'')"
    by (simp add: example_env_def str_of_def)
  have k: "str_of ''airframe_xml'' \<noteq> str_of ''image''" "str_of ''payload'' \<noteq> str_of ''image''"
    by (simp_all add: str_of_def)
  have 2: "process_field example_env (str_of ''extracted'') (str_of ''airframe_xml'')
       (JStr zlib_small_b64) empty_fs []
     = Running (empty_fs\<lparr>files := [str_of ''extracted/airframe_xml.bin'' \<mapsto> zlib_small]\<rparr>) []"
    using ex_candidates(3) e2 d2 x k ex_try_small u2 o2
    by (simp add: process_field_def decode_field_def save_xml_payload_def write_binary_def
        ex_xml_paths empty_fs_def)
  have n2: "zlib_small \<noteq> hello" by (simp add: zlib_small_def hello_def bytes_of_def)
  have e3: "utf8_encode example_env gzip_named_b64 = Some (map of_nat gzip_named_b64)"
    using binary_candidate_encode [OF ex_candidates(1)] by (simp add: example_env_def)
  have d3: "b64decode example_env (map of_nat gzip_named_b64) = Some gzip_named"
    using ex_gzip_named_decode by (simp add: example_env_def)
  have t3: "try_decompress example_env gzip_named = Some hello"
    by (simp add: try_decompress_def gzip_attempt_def gzip_named_def gzip_hello_def example_env_def)
  have nx: "\<not> xml_key (str_of ''payload'')" by (simp add: xml_key_def str_of_def)
  have o3: "can_open example_env (str_of ''extracted/payload.bin'')"
    by (simp add: example_env_def str_of_def)
  have 3: "process_field example_env (str_of ''extracted'') (str_of ''payload'')
       (JStr gzip_named_b64) empty_fs []
     = Running (empty_fs\<lparr>files := [str_of ''extracted/payload.bin'' \<mapsto> gzip_named]\<rparr>) []"
    using ex_candidates(1) e3 d3 nx k o3
    by (simp add: process_field_def decode_field_def write_binary_def ex_xml_paths empty_fs_def)
  have n3: "gzip_named \<noteq> hello" by (simp add: gzip_named_def hello_def bytes_of_def)
  from l ex_candidates(4) d0 ex_try_gzip_hello 1 n1 ex_candidates(3) d2 ex_zlib_small_library 2 n2
    ex_candidates(1) d3 t3 3 n3
  show ?thesis by simp
qed

section \<open>The writer\<close>

subsection \<open>The loop over the fields\<close>

lemma process_field_null: "process_field e out key JNull s rem = Running s rem"
  by (simp add: process_field_def)

lemma process_field_scalar:
  assumes "val \<noteq> JNull" and "\<not> binary_candidate val"
    and "\<forall>t. val = JStr t \<longrightarrow> \<not> long_text key t"
  shows "process_field e out key val s rem = Running s (AList.update key val rem)"
  using assms by (cases val) (simp_all add: process_field_def store_plain_def)

lemma store_plain_remaining:
  "store_plain e out key val s rem = Running s' rem' \<Longrightarrow>
   rem' = rem \<or> rem' = AList.update key val rem"
  by (cases val) (auto simp: store_plain_def split: if_splits prod.splits bool.splits)

lemma process_field_remaining:
  assumes "process_field e out key val s rem = Running s' rem'"
  shows "rem' = rem \<or> (rem' = AList.update key val rem \<and> val \<noteq> JNull)"
proof (cases "val = JNull")
  case True
  with assms show ?thesis by (simp add: process_field_def)
next
  case False
  with assms obtain s1 where "store_plain e out key val s1 rem = Running s' rem' \<or> rem' = rem"
    by (auto simp: process_field_def split: json.splits if_splits prod.splits bool.splits)
  with False show ?thesis using store_plain_remaining by blast
qed

lemma process_field_other_key:
  assumes "process_field e out key val s rem = Running s' rem'" and "k \<noteq> key"
  shows "map_of rem' k = map_of rem k"
  using process_field_remaining [OF assms(1)] assms(2)
  by (auto simp: update_conv')

lemma process_field_no_null:
  assumes "process_field e out key val s rem = Running s' rem'"
    and "JNull \<notin> snd ` set rem"
  shows "JNull \<notin> snd ` set rem'"
proof -
  from process_field_remaining [OF assms(1)]
  show ?thesis
  proof
    assume "rem' = rem"
    with assms(2) show ?thesis by simp
  next
    assume a: "rem' = AList.update key val rem \<and> val \<noteq> JNull"
    have "set (AList.update key val rem) \<subseteq> insert (key, val) (set rem)"
      by (induction rem) auto
    with a assms(2) show ?thesis by auto
  qed
qed

lemma process_fields_other_key:
  "process_fields e out items s rem = Running s' rem' \<Longrightarrow> k \<notin> fst ` set items \<Longrightarrow>
   map_of rem' k = map_of rem k"
proof (induction items arbitrary: s rem)
  case Nil
  then show ?case by simp
next
  case (Cons f items)
  obtain key val where f: "f = (key, val)" by (cases f)
  from Cons.prems(1) f obtain s1 rem1
    where 1: "process_field e out key val s rem = Running s1 rem1"
      and 2: "process_fields e out items s1 rem1 = Running s' rem'"
    by (auto split: run.splits)
  from Cons.prems(2) f have "k \<noteq> key" and "k \<notin> fst ` set items" by auto
  with Cons.IH [OF 2] process_field_other_key [OF 1] show ?case by simp
qed

lemma process_fields_no_null:
  "process_fields e out items s rem = Running s' rem' \<Longrightarrow> JNull \<notin> snd ` set rem \<Longrightarrow>
   JNull \<notin> snd ` set rem'"
proof (induction items arbitrary: s rem)
  case Nil
  then show ?case by simp
next
  case (Cons f items)
  obtain key val where f: "f = (key, val)" by (cases f)
  from Cons.prems(1) f obtain s1 rem1
    where 1: "process_field e out key val s rem = Running s1 rem1"
      and 2: "process_fields e out items s1 rem1 = Running s' rem'"
    by (auto split: run.splits)
  from Cons.IH [OF 2 process_field_no_null [OF 1 Cons.prems(2)]] show ?case .
qed

lemma process_fields_scalar:
  assumes "process_fields e out items s rem = Running s' rem'"
    and "distinct (map fst items)" and "(k, v) \<in> set items"
    and "v \<noteq> JNull" and "\<not> binary_candidate v" and "\<forall>t. v = JStr t \<longrightarrow> \<not> long_text k t"
  shows "map_of rem' k = Some v"
  using assms(1-3)
proof (induction items arbitrary: s rem)
  case Nil
  then show ?case by simp
next
  case (Cons f items)
  obtain key val where f: "f = (key, val)" by (cases f)
  from Cons.prems(1) f obtain s1 rem1
    where 1: "process_field e out key val s rem = Running s1 rem1"
      and 2: "process_fields e out items s1 rem1 = Running s' rem'"
    by (auto split: run.splits)
  show ?case
  proof (cases "(k, v) = (key, val)")
    case True
    with 1 have "rem1 = AList.update k v rem"
      using process_field_scalar [OF assms(4-6), of e out s rem] by simp
    then have "map_of rem1 k = Some v" by (simp add: update_conv')
    moreover from Cons.prems(2) f True have "k \<notin> fst ` set items" by auto
    ultimately show ?thesis using process_fields_other_key [OF 2] by simp
  next
    case False
    with Cons.prems f have "(k, v) \<in> set items" and "distinct (map fst items)" by auto
    with Cons.IH [OF 2] show ?thesis by simp
  qed
qed

lemma save_metadata_files_True:
  assumes "save_metadata_files e metadata out s = (True, s')"
  shows "\<exists>s1 rem j.
     process_fields e out metadata (s\<lparr>dirs := insert out (dirs s)\<rparr>) [] = Running s1 rem \<and>
     encode_chunks e (json_iterencode e rem) [] = (True, j) \<and>
     s' = s1\<lparr>files := (files s1)(path_join out (str_of ''metadata.json'') \<mapsto> j)\<rparr>"
  using assms
  by (auto simp: save_metadata_files_def dump_json_def split: if_splits run.splits prod.splits)

lemma process_field_board_id:
  "process_field e out (str_of ''board_id'') (JInt 9) s rem
     = Running s (AList.update (str_of ''board_id'') (JInt 9) rem)"
  by (simp add: process_field_def store_plain_def)

lemma process_field_description:
  "process_field e out (str_of ''description'') (JStr (str_of ''x'')) s rem
     = Running s (AList.update (str_of ''description'') (JStr (str_of ''x'')) rem)"
  by (simp add: process_field_def store_plain_def binary_candidate_def long_text_def
      str_of_def suffix_def)

lemma example_keys_distinct:
  "str_of ''board_id'' \<noteq> str_of ''description''"
  "str_of ''board_id'' \<noteq> str_of ''image''"
  "str_of ''image'' \<noteq> str_of ''description''"
  by (simp_all add: str_of_def)

subsection \<open>More facts of the example environment\<close>

lemma ex_fields_null:
  "process_fields example_env (str_of ''extracted'') md_null extracted_fs []
     = Running extracted_fs [(str_of ''b'', JInt 1)]"
  by (simp add: md_null_def process_field_def store_plain_def)

lemma ex_dump_b:
  "dump_json example_env (path_join (str_of ''extracted'') (str_of ''metadata.json''))
     [(str_of ''b'', JInt 1)] extracted_fs
   = (True, extracted_fs\<lparr>files := [str_of ''extracted/metadata.json'' \<mapsto> b_json]\<rparr>)"
proof -
  have "encode_chunks example_env (json_iterencode example_env [(str_of ''b'', JInt 1)]) []
      = (True, b_json)"
    by code_simp
  moreover have "path_join (str_of ''extracted'') (str_of ''metadata.json'')
      = str_of ''extracted/metadata.json''"
    by (simp add: path_join_def str_of_def)
  moreover have "can_open example_env (str_of ''extracted/metadata.json'')"
    by (simp add: example_env_def str_of_def)
  ultimately show ?thesis by (simp add: dump_json_def extracted_fs_def)
qed

lemma ex_save_null:
  "save_metadata_files example_env md_null (str_of ''extracted'') empty_fs
     = (True, extracted_fs\<lparr>files := [str_of ''extracted/metadata.json'' \<mapsto> b_json]\<rparr>)"
proof -
  have "can_makedirs example_env (str_of ''extracted'')"
    by (simp add: example_env_def str_of_def)
  moreover have "empty_fs\<lparr>dirs := insert (str_of ''extracted'') (dirs empty_fs)\<rparr> = extracted_fs"
    by (simp add: empty_fs_def extracted_fs_def)
  ultimately show ?thesis
    using ex_fields_null ex_dump_b by (simp add: save_metadata_files_def)
qed





lemma ex_image_long_candidate: "binary_candidate (JStr image_long)"
  by (simp add: binary_candidate_def b64_re_match_iff image_long_def str_of_def b64_class_def)

lemma ex_image_long_decode:
  "b64decode example_env (map of_nat image_long) = Some (concat (replicate 8 binarydata))"
proof -
  have "py_b64decode (map of_nat image_long) = Some (concat (replicate 8 binarydata))"
    by code_simp
  then show ?thesis by (simp add: example_env_def)
qed

lemma ex_image_short_decode: "py_b64decode (map of_nat image_short) = Some binarydata"
  by code_simp

lemma ex_chunks_scalars:
  "encode_chunks example_env (json_iterencode example_env md_scalars) [] = (True, scalars_json)"
  by code_simp

lemma ex_chunks_short:
  "encode_chunks example_env (json_iterencode example_env (md_image image_short)) []
     = (True, short_json)"
  by code_simp

lemma ex_paths:
  "path_join (str_of ''extracted'') (str_of ''firmware.bin'') = str_of ''extracted/firmware.bin''"
  "path_join (str_of ''extracted'') (str_of ''metadata.json'') = str_of ''extracted/metadata.json''"
  by (simp_all add: path_join_def str_of_def)

lemma ex_can_open:
  "can_open example_env (str_of ''extracted/firmware.bin'')"
  "can_open example_env (str_of ''extracted/metadata.json'')"
  "can_makedirs example_env (str_of ''extracted'')"
  by (simp_all add: example_env_def str_of_def)

lemma ex_save_short:
  "save_metadata_files example_env (md_image image_short) (str_of ''extracted'') s =
     (True, s\<lparr>dirs := insert (str_of ''extracted'') (dirs s),
              files := (files s)(str_of ''extracted/metadata.json'' \<mapsto> short_json)\<rparr>)"
proof -
  have n: "\<not> binary_candidate (JStr image_short)"
    by (simp add: binary_candidate_def image_short_def str_of_def)
  have l: "\<not> long_text (str_of ''image'') image_short"
    by (simp add: long_text_def image_short_def str_of_def suffix_def)
  have i: "process_field example_env (str_of ''extracted'') (str_of ''image'') (JStr image_short) t rem
      = Running t (AList.update (str_of ''image'') (JStr image_short) rem)" for t rem
    using n l by (simp add: process_field_def store_plain_def)
  have f: "process_fields example_env (str_of ''extracted'') (md_image image_short) t []
      = Running t (md_image image_short)" for t
    by (simp add: md_image_def process_field_board_id i process_field_description
        example_keys_distinct)
  show ?thesis
    using ex_can_open ex_chunks_short
    by (simp add: save_metadata_files_def f dump_json_def ex_paths)
qed

subsection \<open>The end-to-end scenario\<close>

text \<open>
  C1, as the code has it. The \<open>image\<close> field is decoded only when it passes the test of
  line 160, which asks for more than 100 characters. For the metadata object with
  \<open>board_id\<close> 9, an \<open>image\<close> that passes the test and decodes to the bytes \<open>b\<close>, and the
  \<open>description\<close> \<open>x\<close>, the writer creates the output directory, writes exactly \<open>b\<close> to
  \<open>firmware.bin\<close> and the dump of the two other fields to \<open>metadata.json\<close>, and changes
  nothing else, provided the directory and the two files can be written.
\<close>

theorem image_end_to_end:
  assumes "binary_candidate (JStr v)"
    and "utf8_encode e v = Some vb"
    and "b64decode e vb = Some b"
    and "can_makedirs e out"
    and "can_open e (path_join out (str_of ''firmware.bin''))"
    and "can_open e (path_join out (str_of ''metadata.json''))"
    and "encode_chunks e (json_iterencode e md_scalars) [] = (True, j)"
  shows "save_metadata_files e (md_image v) out s =
     (True, s\<lparr>dirs := insert out (dirs s),
              files := (files s)(path_join out (str_of ''firmware.bin'') \<mapsto> b,
                                 path_join out (str_of ''metadata.json'') \<mapsto> j)\<rparr>)"
proof -
  let ?s0 = "s\<lparr>dirs := insert out (dirs s)\<rparr>"
  let ?s1 = "?s0\<lparr>files := (files ?s0)(path_join out (str_of ''firmware.bin'') \<mapsto> b)\<rparr>"
  have img: "process_field e out (str_of ''image'') (JStr v) ?s0 rem = Running ?s1 rem" for rem
    using assms(1,2,3,5)
    by (simp add: process_field_def decode_field_def write_binary_def)
  have "process_fields e out (md_image v) ?s0 [] = Running ?s1 md_scalars"
    by (simp add: md_image_def process_field_board_id img process_field_description
        md_scalars_def example_keys_distinct)
  moreover have "dump_json e (path_join out (str_of ''metadata.json'')) md_scalars ?s1
      = (True, ?s1\<lparr>files := (files ?s1)(path_join out (str_of ''metadata.json'') \<mapsto> j)\<rparr>)"
    using assms(6,7) by (simp add: dump_json_def)
  ultimately show ?thesis
    using assms(4) by (simp add: save_metadata_files_def)
qed

theorem image_end_to_end_witness:
  "save_metadata_files example_env (md_image image_long) (str_of ''extracted'') empty_fs =
     (True, \<lparr>dirs = {str_of ''extracted''},
             files = [str_of ''extracted/firmware.bin'' \<mapsto> concat (replicate 8 binarydata),
                      str_of ''extracted/metadata.json'' \<mapsto> scalars_json]\<rparr>)"
proof -
  have e: "utf8_encode example_env image_long = Some (map of_nat image_long)"
    using binary_candidate_encode [OF ex_image_long_candidate] by (simp add: example_env_def)
  show ?thesis
    using image_end_to_end [OF ex_image_long_candidate e ex_image_long_decode,
        of "str_of ''extracted''" scalars_json empty_fs]
      ex_can_open ex_chunks_scalars
    by (simp add: ex_paths empty_fs_def)
qed

text \<open>
  C1 as stated fails: the base64 text of \<open>BINARYDATA\<close> has 16 characters, so the field
  does not pass the test; no \<open>firmware.bin\<close> is written and \<open>metadata.json\<close> holds all
  three fields.
\<close>

theorem image_end_to_end_counterexample:
  "py_b64decode (map of_nat image_short) = Some binarydata \<and>
   \<not> binary_candidate (JStr image_short) \<and>
   save_metadata_files example_env (md_image image_short) (str_of ''extracted'') empty_fs =
     (True, \<lparr>dirs = {str_of ''extracted''},
             files = [str_of ''extracted/metadata.json'' \<mapsto> short_json]\<rparr>) \<and>
   short_json \<noteq> scalars_json"
proof -
  have n: "\<not> binary_candidate (JStr image_short)"
    by (simp add: binary_candidate_def image_short_def str_of_def)
  have "save_metadata_files example_env (md_image image_short) (str_of ''extracted'') empty_fs =
     (True, \<lparr>dirs = {str_of ''extracted''},
             files = [str_of ''extracted/metadata.json'' \<mapsto> short_json]\<rparr>)"
    by (simp add: ex_save_short empty_fs_def)
  moreover have "short_json \<noteq> scalars_json"
    by (simp add: short_json_def scalars_json_def bytes_of_def)
  ultimately show ?thesis using ex_image_short_decode n by simp
qed

subsection \<open>Scalar fields\<close>

text \<open>
  C3, as the code has it. Line 156 skips a \<open>null\<close> value. Every other field of a
  metadata object (keys distinct, as in a \<open>dict\<close>) that is neither sent into the base64
  branch nor long text is in \<open>remaining\<close> at the end of the loop, under its key and
  unchanged, and \<open>remaining\<close>, which holds no \<open>null\<close>, is what a run that returns has
  dumped to \<open>metadata.json\<close>.
\<close>

theorem scalars_reach_metadata_json:
  assumes "save_metadata_files e metadata out s = (True, s')"
    and "distinct (map fst metadata)"
    and "(k, v) \<in> set metadata"
    and "v \<noteq> JNull" and "\<not> binary_candidate v" and "\<forall>t. v = JStr t \<longrightarrow> \<not> long_text k t"
  shows "\<exists>s1 rem j.
     process_fields e out metadata (s\<lparr>dirs := insert out (dirs s)\<rparr>) [] = Running s1 rem \<and>
     map_of rem k = Some v \<and> JNull \<notin> snd ` set rem \<and>
     encode_chunks e (json_iterencode e rem) [] = (True, j) \<and>
     files s' (path_join out (str_of ''metadata.json'')) = Some j"
proof -
  from save_metadata_files_True [OF assms(1)] obtain s1 rem j
    where 1: "process_fields e out metadata (s\<lparr>dirs := insert out (dirs s)\<rparr>) [] = Running s1 rem"
      and 2: "encode_chunks e (json_iterencode e rem) [] = (True, j)"
      and 3: "s' = s1\<lparr>files := (files s1)(path_join out (str_of ''metadata.json'') \<mapsto> j)\<rparr>"
    by blast
  have "map_of rem k = Some v"
    using process_fields_scalar [OF 1 assms(2-6)] .
  moreover have "JNull \<notin> snd ` set rem"
    using process_fields_no_null [OF 1] by simp
  moreover from 3 have "files s' (path_join out (str_of ''metadata.json'')) = Some j" by simp
  ultimately show ?thesis using 1 2 by blast
qed

theorem scalars_reach_metadata_json_witness:
  "save_metadata_files example_env md_null (str_of ''extracted'') empty_fs
     = (True, extracted_fs\<lparr>files := [str_of ''extracted/metadata.json'' \<mapsto> b_json]\<rparr>) \<and>
   (\<exists>s1 rem j.
     process_fields example_env (str_of ''extracted'') md_null
       (empty_fs\<lparr>dirs := insert (str_of ''extracted'') (dirs empty_fs)\<rparr>) [] = Running s1 rem \<and>
     map_of rem (str_of ''b'') = Some (JInt 1) \<and> JNull \<notin> snd ` set rem \<and>
     encode_chunks example_env (json_iterencode example_env rem) [] = (True, j) \<and>
     files (extracted_fs\<lparr>files := [str_of ''extracted/metadata.json'' \<mapsto> b_json]\<rparr>)
       (path_join (str_of ''extracted'') (str_of ''metadata.json'')) = Some j)"
proof -
  have d: "distinct (map fst md_null)" by (simp add: md_null_def str_of_def)
  have m: "(str_of ''b'', JInt 1) \<in> set md_null" by (simp add: md_null_def)
  have n: "\<not> binary_candidate (JInt 1)" by (simp add: binary_candidate_def)
  have "\<exists>s1 rem j.
     process_fields example_env (str_of ''extracted'') md_null
       (empty_fs\<lparr>dirs := insert (str_of ''extracted'') (dirs empty_fs)\<rparr>) [] = Running s1 rem \<and>
     map_of rem (str_of ''b'') = Some (JInt 1) \<and> JNull \<notin> snd ` set rem \<and>
     encode_chunks example_env (json_iterencode example_env rem) [] = (True, j) \<and>
     files (extracted_fs\<lparr>files := [str_of ''extracted/metadata.json'' \<mapsto> b_json]\<rparr>)
       (path_join (str_of ''extracted'') (str_of ''metadata.json'')) = Some j"
    by (rule scalars_reach_metadata_json [OF ex_save_null d m _ n]) simp_all
  with ex_save_null show ?thesis by blast
qed

text \<open>
  C3 as stated fails for a \<open>null\<close> field: of \<open>{"a": null, "b": 1}\<close> only \<open>b\<close> reaches
  \<open>remaining\<close> and \<open>metadata.json\<close>.
\<close>

theorem null_field_counterexample:
  "(str_of ''a'', JNull) \<in> set md_null \<and>
   process_fields example_env (str_of ''extracted'') md_null extracted_fs []
     = Running extracted_fs [(str_of ''b'', JInt 1)] \<and>
   save_metadata_files example_env md_null (str_of ''extracted'') empty_fs
     = (True, extracted_fs\<lparr>files := [str_of ''extracted/metadata.json'' \<mapsto> b_json]\<rparr>) \<and>
   map_of [(str_of ''b'', JInt 1)] (str_of ''a'') = None"
  using ex_fields_null ex_save_null by (simp add: md_null_def str_of_def)

subsection \<open>A base64 text that does not decode\<close>




section \<open>The whole run\<close>

subsection \<open>Every write is laid over the file system\<close>

lemma fs_over_assoc: "fs_over (fs_over a b) c = fs_over a (fs_over b c)"
  by (simp add: fs_over_def Un_assoc)

lemma fs_over_empty_left: "fs_over empty_fs d = d"
  by (simp add: fs_over_def empty_fs_def)

lemma fs_over_empty_right: "fs_over s empty_fs = s"
  by (simp add: fs_over_def empty_fs_def)

lemma map_add_self: "m ++ m = m"
  by (rule ext) (simp add: map_add_def split: option.splits)

lemma fs_over_self: "fs_over d d = d"
  by (rule fs.equality) (simp_all add: fs_over_def map_add_self)

lemma fs_over_idem: "fs_over (fs_over s d) d = fs_over s d"
  by (simp only: fs_over_assoc fs_over_self)

lemma framedD:
  assumes "framed f"
  shows "f s = (fst (f empty_fs), fs_over s (snd (f empty_fs)))"
  using assms unfolding framed_def by (rule spec)

lemma framed_const: "framed (\<lambda>s. (b, s))"
  by (simp add: framed_def fs_over_empty_right)

lemma framed_write_binary: "framed (write_binary e p b)"
  by (simp add: framed_def write_binary_def fs_over_def empty_fs_def)

lemma framed_write_text: "framed (write_text e p t)"
  by (simp add: framed_def write_text_def fs_over_def empty_fs_def split: option.splits)

lemma framed_else:
  assumes "framed f" and "framed g"
  shows "framed (\<lambda>s. case f s of (True, s') \<Rightarrow> (True, s') | (False, s') \<Rightarrow> g s')"
proof -
  { fix s
    obtain b d where e: "f empty_fs = (b, d)" by (cases "f empty_fs")
    then have fs: "f s = (b, fs_over s d)" using framedD [OF assms(1), of s] by simp
    obtain c dg where g: "g empty_fs = (c, dg)" by (cases "g empty_fs")
    have "(case f s of (True, s') \<Rightarrow> (True, s') | (False, s') \<Rightarrow> g s')
      = (fst (case f empty_fs of (True, s') \<Rightarrow> (True, s') | (False, s') \<Rightarrow> g s'),
         fs_over s (snd (case f empty_fs of (True, s') \<Rightarrow> (True, s') | (False, s') \<Rightarrow> g s')))"
    proof (cases b)
      case True
      with e fs show ?thesis by simp
    next
      case False
      have "g (fs_over s d) = (c, fs_over s (fs_over d dg))"
        using framedD [OF assms(2), of "fs_over s d"] g by (simp add: fs_over_assoc)
      moreover have "g d = (c, fs_over d dg)"
        using framedD [OF assms(2), of d] g by simp
      ultimately show ?thesis using False e fs by simp
    qed }
  then show ?thesis unfolding framed_def by blast
qed

lemma framed_save_xml_payload: "framed (save_xml_payload e out key payload)"
proof (cases "utf8_decode e payload")
  case None
  then have "save_xml_payload e out key payload
      = write_binary e (path_join out (key @ str_of ''.bin'')) payload"
    by (simp add: save_xml_payload_def fun_eq_iff)
  then show ?thesis by (simp add: framed_write_binary)
next
  case (Some t)
  then have "save_xml_payload e out key payload
      = (\<lambda>s. case write_text e (path_join out (key @ str_of ''.xml'')) t s of
               (True, s') \<Rightarrow> (True, s')
             | (False, s') \<Rightarrow> write_binary e (path_join out (key @ str_of ''.bin'')) payload s')"
    by (simp add: save_xml_payload_def fun_eq_iff)
  then show ?thesis
    using framed_else [OF framed_write_text framed_write_binary] by simp
qed

lemma framed_decode_field: "framed (decode_field e out key v)"
proof (cases "utf8_encode e v")
  case None
  then have "decode_field e out key v = (\<lambda>s. (False, s))"
    by (simp add: decode_field_def fun_eq_iff)
  then show ?thesis by (simp add: framed_const)
next
  case enc: (Some vb)
  show ?thesis
  proof (cases "b64decode e vb")
    case None
    with enc have "decode_field e out key v = (\<lambda>s. (False, s))"
      by (simp add: decode_field_def fun_eq_iff)
    then show ?thesis by (simp add: framed_const)
  next
    case (Some decoded)
    consider "key = str_of ''image''"
      | "key \<noteq> str_of ''image''" "xml_key key"
      | "key \<noteq> str_of ''image''" "\<not> xml_key key"
      by blast
    then show ?thesis
    proof cases
      case 1
      with enc Some have "decode_field e out key v
          = write_binary e (path_join out (str_of ''firmware.bin'')) decoded"
        by (simp add: decode_field_def fun_eq_iff)
      then show ?thesis by (simp add: framed_write_binary)
    next
      case 2
      with enc Some have "decode_field e out key v
          = save_xml_payload e out key
              (case try_decompress e decoded of Some r \<Rightarrow> r | None \<Rightarrow> decoded)"
        by (simp add: decode_field_def fun_eq_iff split: option.splits)
      then show ?thesis by (simp add: framed_save_xml_payload)
    next
      case 3
      with enc Some have "decode_field e out key v
          = write_binary e (path_join out (key @ str_of ''.bin'')) decoded"
        by (simp add: decode_field_def fun_eq_iff)
      then show ?thesis by (simp add: framed_write_binary)
    qed
  qed
qed

lemma store_plain_over:
  "store_plain e out key val s rem = run_over s (store_plain e out key val empty_fs rem)"
proof (cases val)
  case (JStr v)
  show ?thesis
  proof (cases "long_text key v")
    case True
    obtain b d where w: "write_text e (path_join out (key @ str_of ''.'' @ text_ext key)) v empty_fs
        = (b, d)"
      by (cases "write_text e (path_join out (key @ str_of ''.'' @ text_ext key)) v empty_fs")
    then have "write_text e (path_join out (key @ str_of ''.'' @ text_ext key)) v s
        = (b, fs_over s d)"
      using framedD [OF framed_write_text, of e _ v s] by simp
    with w True JStr show ?thesis
      by (cases b) (simp_all add: store_plain_def run_over_def)
  next
    case False
    with JStr show ?thesis
      by (simp add: store_plain_def run_over_def fs_over_empty_right)
  qed
qed (simp_all add: store_plain_def run_over_def fs_over_empty_right)

lemma run_over_assoc: "run_over (fs_over a b) r = run_over a (run_over b r)"
  by (cases r) (simp_all add: run_over_def fs_over_assoc)

lemma process_field_over:
  "process_field e out key val s rem = run_over s (process_field e out key val empty_fs rem)"
proof -
  consider (null) "val = JNull"
    | (cand) v where "val = JStr v" and "binary_candidate val"
    | (plain) "val \<noteq> JNull" and "\<not> binary_candidate val"
    by (cases val) (auto simp: binary_candidate_def)
  then show ?thesis
  proof cases
    case null
    then show ?thesis by (simp add: process_field_def run_over_def fs_over_empty_right)
  next
    case plain
    then have "process_field e out key val t rem = store_plain e out key val t rem" for t
      by (cases val) (simp_all add: process_field_def)
    then show ?thesis using store_plain_over [of e out key val s rem] by simp
  next
    case cand
    have pf: "process_field e out key val t rem =
        (case decode_field e out key v t of
           (True, s') \<Rightarrow> Running s' rem
         | (False, s') \<Rightarrow>
             if can_print e (DecodeFailed key) then store_plain e out key val s' rem
             else Aborted s')" for t
      using cand by (auto simp: process_field_def split: prod.splits bool.splits)
    obtain b d where e: "decode_field e out key v empty_fs = (b, d)"
      by (cases "decode_field e out key v empty_fs")
    then have fs: "decode_field e out key v s = (b, fs_over s d)"
      using framedD [OF framed_decode_field, of e out key v s] by simp
    show ?thesis
    proof (cases b)
      case True
      with e fs show ?thesis by (simp add: pf run_over_def)
    next
      case False
      have "store_plain e out key val (fs_over s d) rem
          = run_over s (run_over d (store_plain e out key val empty_fs rem))"
        using store_plain_over [of e out key val "fs_over s d" rem] by (simp add: run_over_assoc)
      also have "run_over d (store_plain e out key val empty_fs rem)
          = store_plain e out key val d rem"
        using store_plain_over [of e out key val d rem] by simp
      finally show ?thesis using False e fs by (simp add: pf run_over_def)
    qed
  qed
qed

lemma process_fields_over:
  "process_fields e out items s rem = run_over s (process_fields e out items empty_fs rem)"
proof (induction items arbitrary: s rem)
  case Nil
  then show ?case by (simp add: run_over_def fs_over_empty_right)
next
  case (Cons f items)
  obtain key val where f: "f = (key, val)" by (cases f)
  show ?case
  proof (cases "process_field e out key val empty_fs rem")
    case (Aborted d)
    then have "process_field e out key val s rem = Aborted (fs_over s d)"
      using process_field_over [of e out key val s rem] by (simp add: run_over_def)
    with Aborted f show ?thesis by (simp add: run_over_def)
  next
    case (Running d rem1)
    then have 1: "process_field e out key val s rem = Running (fs_over s d) rem1"
      using process_field_over [of e out key val s rem] by (simp add: run_over_def)
    have "process_fields e out items (fs_over s d) rem1
        = run_over s (run_over d (process_fields e out items empty_fs rem1))"
      using Cons.IH [of "fs_over s d" rem1] by (simp add: run_over_assoc)
    also have "run_over d (process_fields e out items empty_fs rem1)
        = process_fields e out items d rem1"
      using Cons.IH [of d rem1] by simp
    finally show ?thesis using 1 Running f by simp
  qed
qed

lemma framed_dump_json: "framed (dump_json e p d)"
  by (simp add: framed_def dump_json_def fs_over_def empty_fs_def split: prod.splits)

lemma framed_save_metadata_files: "framed (save_metadata_files e metadata out)"
proof -
  { fix s
    let ?d0 = "empty_fs\<lparr>dirs := insert out (dirs empty_fs)\<rparr>"
    have s0: "s\<lparr>dirs := insert out (dirs s)\<rparr> = fs_over s ?d0"
      by (simp add: fs_over_def empty_fs_def)
    have "save_metadata_files e metadata out s
        = (fst (save_metadata_files e metadata out empty_fs),
           fs_over s (snd (save_metadata_files e metadata out empty_fs)))"
    proof (cases "can_makedirs e out")
      case False
      then show ?thesis by (simp add: save_metadata_files_def fs_over_empty_right)
    next
      case True
      show ?thesis
      proof (cases "process_fields e out metadata empty_fs []")
        case (Aborted d)
        then have "process_fields e out metadata ?d0 [] = Aborted (fs_over ?d0 d)"
          and "process_fields e out metadata (fs_over s ?d0) [] = Aborted (fs_over (fs_over s ?d0) d)"
          using process_fields_over [of e out metadata ?d0 "[]"]
            process_fields_over [of e out metadata "fs_over s ?d0" "[]"]
          by (simp_all add: run_over_def)
        with True show ?thesis
          by (simp add: save_metadata_files_def s0 fs_over_assoc)
      next
        case (Running d rem)
        then have 1: "process_fields e out metadata ?d0 [] = Running (fs_over ?d0 d) rem"
          and 2: "process_fields e out metadata (fs_over s ?d0) [] = Running (fs_over (fs_over s ?d0) d) rem"
          using process_fields_over [of e out metadata ?d0 "[]"]
            process_fields_over [of e out metadata "fs_over s ?d0" "[]"]
          by (simp_all add: run_over_def)
        let ?p = "path_join out (str_of ''metadata.json'')"
        obtain b dj where j: "dump_json e ?p rem empty_fs = (b, dj)"
          by (cases "dump_json e ?p rem empty_fs")
        have j1: "dump_json e ?p rem t = (b, fs_over t dj)" for t
          using framedD [OF framed_dump_json, of e ?p rem t] j by simp
        from True 1 2 show ?thesis
          by (simp add: save_metadata_files_def s0 j1 fs_over_assoc)
      qed
    qed }
  then show ?thesis unfolding framed_def by blast
qed

lemma quick_extract_tags_reads:
  "files s p = files s' p \<Longrightarrow> quick_extract_tags e p s = quick_extract_tags e p s'"
  by (simp add: quick_extract_tags_def)

subsection \<open>Facts of the example environment for the entry point\<close>

lemma ex_locate_fw: "locate_json fw_data = Some (map of_nat md_short_text)"
  by code_simp

lemma ex_decode_fw: "utf8_dec False (map of_nat md_short_text) = Some md_short_text"
  by code_simp

lemma ex_loads_fw: "json_loads example_env md_short_text = Some (md_image image_short)"
  by (simp add: example_env_def md_short_text_def str_of_def)

lemma ex_quick_fw:
  assumes "files s (str_of ''fw.px4'') = Some fw_data"
  shows "quick_extract_tags example_env (str_of ''fw.px4'') s = Returned (Some (md_image image_short))"
proof -
  have p: "parse_json example_env (map of_nat md_short_text) = Some (md_image image_short)"
    using ex_decode_fw ex_loads_fw by (simp add: parse_json_def example_env_def)
  have ne: "map of_nat md_short_text \<noteq> ([] :: bytes)"
    by (simp add: md_short_text_def str_of_def)
  have a: "map_of (md_image image_short) (str_of ''airframe_xml'') = None"
    by (simp add: md_image_def str_of_def)
  show ?thesis
    using assms ex_locate_fw p ne a by (simp add: quick_extract_tags_def)
qed

lemma ex_main_fw:
  "script_main example_env argv0 fw_fs =
     (Exit0, fw_fs\<lparr>dirs := {str_of ''extracted''},
                  files := (files fw_fs)(str_of ''extracted/metadata.json'' \<mapsto> short_json)\<rparr>)"
proof -
  have "files fw_fs (str_of ''fw.px4'') = Some fw_data" by (simp add: fw_fs_def)
  note q = ex_quick_fw [OF this]
  have i: "argv0 ! 1 = str_of ''fw.px4''" by (simp add: argv0_def)
  have ne: "md_image image_short \<noteq> []" by (simp add: md_image_def)
  have d: "dirs fw_fs = {}" by (simp add: fw_fs_def)
  have l: "\<not> length argv0 < 2" by (simp add: argv0_def)
  show ?thesis
    unfolding script_main_def i by (simp add: l q ne ex_save_short d)
qed

subsection \<open>Running twice\<close>

text \<open>
  C9. A function of the model gives the same result on the same arguments, so the
  claim is stated for the second of two runs in a row: it starts from the output
  directory the first run left. When it reads the same input buffer as the first
  (the run did not write over its own input file), it ends with the same status and
  leaves every directory and every file, \<open>metadata.json\<close> included, exactly as the
  first run left them.
\<close>

theorem pipeline_idempotent:
  assumes "files (snd (script_main e argv s)) (argv ! 1) = files s (argv ! 1)"
  shows "script_main e argv (snd (script_main e argv s)) = script_main e argv s"
proof (cases "length argv < 2")
  case True
  then show ?thesis by (simp add: script_main_def)
next
  case False
  let ?s' = "snd (script_main e argv s)"
  have q: "quick_extract_tags e (argv ! 1) ?s' = quick_extract_tags e (argv ! 1) s"
    using quick_extract_tags_reads [OF assms] .
  show ?thesis
  proof (cases "\<exists>metadata. quick_extract_tags e (argv ! 1) s = Returned (Some metadata) \<and> metadata \<noteq> []")
    case True
    then obtain metadata where m: "quick_extract_tags e (argv ! 1) s = Returned (Some metadata)"
      and ne: "metadata \<noteq> []" by blast
    obtain b d where sv: "save_metadata_files e metadata (str_of ''extracted'') empty_fs = (b, d)"
      by (cases "save_metadata_files e metadata (str_of ''extracted'') empty_fs")
    have sv1: "save_metadata_files e metadata (str_of ''extracted'') t = (b, fs_over t d)" for t
      using framedD [OF framed_save_metadata_files, of e metadata _ t] sv by simp
    have r: "script_main e argv t = ((if b then Exit0 else Traceback), fs_over t d)"
      if "quick_extract_tags e (argv ! 1) t = Returned (Some metadata)" for t
      using that False ne by (simp add: script_main_def sv1)
    from r [OF m] have s': "?s' = fs_over s d" by simp
    from q m have "quick_extract_tags e (argv ! 1) ?s' = Returned (Some metadata)" by simp
    from r [OF this] r [OF m] show ?thesis by (simp add: s' fs_over_idem)
  next
    case no: False
    have u: "script_main e argv t = (fst (script_main e argv t), t)"
      if "quick_extract_tags e (argv ! 1) t = quick_extract_tags e (argv ! 1) s" for t
      using that no False
      by (auto simp: script_main_def split: pyresult.splits option.splits)
    from u [of s] have "?s' = s" by (metis snd_conv)
    then show ?thesis by simp
  qed
qed

theorem pipeline_idempotent_witness:
  "script_main example_env argv0 fw_fs =
     (Exit0, fw_fs\<lparr>dirs := {str_of ''extracted''},
                  files := (files fw_fs)(str_of ''extracted/metadata.json'' \<mapsto> short_json)\<rparr>) \<and>
   script_main example_env argv0 (snd (script_main example_env argv0 fw_fs))
     = script_main example_env argv0 fw_fs"
proof -
  have i: "argv0 ! 1 = str_of ''fw.px4''" by (simp add: argv0_def)
  have k: "str_of ''fw.px4'' \<noteq> str_of ''extracted/metadata.json''" by (simp add: str_of_def)
  have "files (snd (script_main example_env argv0 fw_fs)) (argv0 ! 1) = files fw_fs (argv0 ! 1)"
    unfolding ex_main_fw i using k by simp
  from pipeline_idempotent [OF this] ex_main_fw show ?thesis by simp
qed

subsection \<open>The empty object\<close>

text \<open>
  C10. When the object located in the firmware file parses to the empty \<open>dict\<close>, the
  script ends normally with the file system unchanged: the writer is not called, so
  no directory and no \<open>metadata.json\<close> appear. That is also what happens when parsing
  fails.
\<close>

theorem empty_object_writes_nothing:
  assumes "2 \<le> length argv"
    and "files s (argv ! 1) = Some data"
    and "locate_json data = Some json_bytes"
    and "parse_json e json_bytes = Some [] \<or> parse_json e json_bytes = None"
  shows "script_main e argv s = (Exit0, s)"
  using assms by (auto simp: script_main_def quick_extract_tags_def)

theorem empty_object_writes_nothing_witness:
  "script_main example_env argv0 empty_obj_fs = (Exit0, empty_obj_fs)"
proof -
  have a: "2 \<le> length argv0" by (simp add: argv0_def)
  have f: "files empty_obj_fs (argv0 ! 1) = Some ([0x00] @ bytes_of ''{}'' @ [0xFF])"
    by (simp add: empty_obj_fs_def argv0_def)
  have l: "locate_json ([0x00] @ bytes_of ''{}'' @ [0xFF]) = Some (bytes_of ''{}'')"
    by code_simp
  have d: "utf8_dec False (bytes_of ''{}'') = Some (str_of ''{}'')" by code_simp
  have p: "parse_json example_env (bytes_of ''{}'') = Some [] \<or>
      parse_json example_env (bytes_of ''{}'') = None"
    using d by (simp add: parse_json_def example_env_def)
  show ?thesis by (rule empty_object_writes_nothing [OF a f l p])
qed

end
